theory Spec2Isabelle
  imports Main "HOL-Library.Word"
begin

section \<open>Common types\<close>

text \<open>
  Python \<open>bytes\<close> are lists of 8-bit words; Python \<open>str\<close> values are lists of
  characters. The line decoder only ever compares a character with the two
  terminators below.
\<close>

type_synonym byte = "8 word"
type_synonym bytes = "byte list"

abbreviation LF :: char where "LF \<equiv> CHR 0x0A"
abbreviation CR :: char where "CR \<equiv> CHR 0x0D"

text \<open>
  The exceptions that leave the methods of \<open>httpx/_decoders.py\<close>. \<open>ValueError\<close> is
  what the decoders raise for a decoding failure (the error kind the specification
  calls DecodingError); \<open>LookupError\<close> is raised by \<open>codecs\<close> for an unknown encoding
  name and is not caught; \<open>AssertionError\<close> comes from the \<open>assert\<close> statements.
\<close>

datatype exn = ValueError string | LookupError string | AssertionError

section \<open>The zlib engine (external)\<close>

text \<open>
  \<open>zlib\<close> is not part of the repository. A decompression object is a value of an
  arbitrary type \<open>'z\<close>, and the three operations the decoders use are parameters:
  \<open>decompressobj wbits\<close> makes a fresh object, \<open>decompress\<close> and \<open>zflush\<close> return
  the output or the message of \<open>zlib.error\<close> (\<open>Inl\<close>), with the object as the call
  left it.
\<close>

record 'z zlib =
  decompressobj :: "int \<Rightarrow> 'z"
  decompress :: "'z \<Rightarrow> bytes \<Rightarrow> (string + bytes) \<times> 'z"
  zflush :: "'z \<Rightarrow> (string + bytes) \<times> 'z"

text \<open>
  \<open>zlib.MAX_WBITS\<close>, a constant of zlib, is 15; \<open>zlib.decompressobj()\<close> with no
  argument takes it as its window bits.
\<close>

definition MAX_WBITS :: int where
  "MAX_WBITS = 15"

section \<open>IdentityDecoder\<close>

definition identity_decode :: "bytes \<Rightarrow> exn + bytes" where
  "identity_decode data = Inr data"

definition identity_flush :: "exn + bytes" where
  "identity_flush = Inr []"

section \<open>DeflateDecoder\<close>

record 'z deflate_decoder =
  first_attempt :: bool
  decompressor :: 'z

definition deflate_init :: "'z zlib \<Rightarrow> 'z deflate_decoder" where
  "deflate_init Z = \<lparr>first_attempt = True, decompressor = decompressobj Z MAX_WBITS\<rparr>"

text \<open>
  \<open>decode\<close> calls itself in the handler of \<open>zlib.error\<close>, after it has cleared
  \<open>first_attempt\<close>; the recursion is kept as it is written.
\<close>

function deflate_decode ::
  "'z zlib \<Rightarrow> 'z deflate_decoder \<Rightarrow> bytes \<Rightarrow> (exn + bytes) \<times> 'z deflate_decoder" where
  "deflate_decode Z self data =
     (let was_first_attempt = first_attempt self;
          self1 = self\<lparr>first_attempt := False\<rparr>
      in
        case decompress Z (decompressor self1) data of
          (Inr out, z) \<Rightarrow> (Inr out, self1\<lparr>decompressor := z\<rparr>)
        | (Inl exc, z) \<Rightarrow>
            if was_first_attempt then
              deflate_decode Z (self1\<lparr>decompressor := decompressobj Z (- MAX_WBITS)\<rparr>) data
            else (Inl (ValueError exc), self1\<lparr>decompressor := z\<rparr>))"
  by pat_completeness auto
termination
  by (relation "measure (\<lambda>(Z, self, data). if first_attempt self then 1 else 0)") auto

declare deflate_decode.simps [simp del]

definition deflate_flush :: "'z zlib \<Rightarrow> 'z deflate_decoder \<Rightarrow> (exn + bytes) \<times> 'z deflate_decoder" where
  "deflate_flush Z self =
     (case zflush Z (decompressor self) of
        (Inr out, z) \<Rightarrow> (Inr out, self\<lparr>decompressor := z\<rparr>)
      | (Inl exc, z) \<Rightarrow> (Inl (ValueError exc), self\<lparr>decompressor := z\<rparr>))"

text \<open>The decoder after a sequence of \<open>decode\<close> calls, whatever each call returned.\<close>

fun deflate_after :: "'z zlib \<Rightarrow> 'z deflate_decoder \<Rightarrow> bytes list \<Rightarrow> 'z deflate_decoder" where
  "deflate_after Z self [] = self"
| "deflate_after Z self (chunk # chunks) =
     deflate_after Z (snd (deflate_decode Z self chunk)) chunks"

section \<open>GZipDecoder\<close>

record 'z gzip_decoder =
  gz_decompressor :: 'z

definition gzip_init :: "'z zlib \<Rightarrow> 'z gzip_decoder" where
  "gzip_init Z = \<lparr>gz_decompressor = decompressobj Z (MAX_WBITS + 16)\<rparr>"

definition gzip_decode :: "'z zlib \<Rightarrow> 'z gzip_decoder \<Rightarrow> bytes \<Rightarrow> (exn + bytes) \<times> 'z gzip_decoder" where
  "gzip_decode Z self data =
     (case decompress Z (gz_decompressor self) data of
        (Inr out, z) \<Rightarrow> (Inr out, self\<lparr>gz_decompressor := z\<rparr>)
      | (Inl exc, z) \<Rightarrow> (Inl (ValueError exc), self\<lparr>gz_decompressor := z\<rparr>))"

definition gzip_flush :: "'z zlib \<Rightarrow> 'z gzip_decoder \<Rightarrow> (exn + bytes) \<times> 'z gzip_decoder" where
  "gzip_flush Z self =
     (case zflush Z (gz_decompressor self) of
        (Inr out, z) \<Rightarrow> (Inr out, self\<lparr>gz_decompressor := z\<rparr>)
      | (Inl exc, z) \<Rightarrow> (Inl (ValueError exc), self\<lparr>gz_decompressor := z\<rparr>))"

section \<open>A toy zlib engine for concrete instances\<close>

text \<open>
  The theorems below hold for every engine. To instantiate them at concrete inputs
  a small engine stands in for zlib: an object remembers its window bits and whether
  it has consumed input; an empty chunk gives empty output; with positive window
  bits the first byte of the stream must be the header byte \<open>0x78\<close>, which is
  dropped; a byte \<open>0xFF\<close> is rejected as corrupt; every other byte is passed on.
\<close>

record toy_z =
  tz_wbits :: int
  tz_started :: bool

definition toy_decompress :: "toy_z \<Rightarrow> bytes \<Rightarrow> (string + bytes) \<times> toy_z" where
  "toy_decompress z data =
     (if data = [] then (Inr [], z)
      else if 0 < tz_wbits z \<and> \<not> tz_started z \<and> hd data \<noteq> 0x78 then
        (Inl ''incorrect header check'', z)
      else if list_ex (\<lambda>b. b = 0xFF) data then
        (Inl ''invalid block type'', z\<lparr>tz_started := True\<rparr>)
      else
        (Inr (if 0 < tz_wbits z \<and> \<not> tz_started z then tl data else data),
         z\<lparr>tz_started := True\<rparr>))"

definition toy_zlib :: "toy_z zlib" where
  "toy_zlib =
     \<lparr>decompressobj = (\<lambda>wbits. \<lparr>tz_wbits = wbits, tz_started = False\<rparr>),
      decompress = toy_decompress,
      zflush = (\<lambda>z. (Inr [], z))\<rparr>"

section \<open>Properties of DeflateDecoder\<close>

lemma deflate_decode_not_first:
  "\<not> first_attempt self \<Longrightarrow>
   deflate_decode Z self data =
     (case decompress Z (decompressor self) data of
        (Inr out, z) \<Rightarrow> (Inr out, self\<lparr>decompressor := z\<rparr>)
      | (Inl exc, z) \<Rightarrow> (Inl (ValueError exc), self\<lparr>decompressor := z\<rparr>))"
  by (simp add: deflate_decode.simps [of Z self data] split: prod.splits sum.splits)

lemma deflate_decode_first:
  "first_attempt self \<Longrightarrow>
   deflate_decode Z self data =
     (case decompress Z (decompressor self) data of
        (Inr out, z) \<Rightarrow> (Inr out, self\<lparr>first_attempt := False, decompressor := z\<rparr>)
      | (Inl exc, z) \<Rightarrow>
          (case decompress Z (decompressobj Z (- MAX_WBITS)) data of
             (Inr out, z') \<Rightarrow>
               (Inr out, self\<lparr>first_attempt := False, decompressor := z'\<rparr>)
           | (Inl exc', z') \<Rightarrow>
               (Inl (ValueError exc'), self\<lparr>first_attempt := False, decompressor := z'\<rparr>)))"
  by (simp add: deflate_decode.simps [of Z self data] deflate_decode_not_first
      split: prod.splits sum.splits)

lemma deflate_decode_clears_flag:
  "\<not> first_attempt (snd (deflate_decode Z self data))"
  by (cases "first_attempt self")
    (simp_all add: deflate_decode_first deflate_decode_not_first split: prod.splits sum.splits)

lemma deflate_after_not_first:
  "\<not> first_attempt self \<Longrightarrow>
   \<not> first_attempt (deflate_after Z self chunks) \<and>
   decompressor (deflate_after Z self chunks) =
     fold (\<lambda>chunk z. snd (decompress Z z chunk)) chunks (decompressor self)"
proof (induction chunks arbitrary: self)
  case Nil
  then show ?case by simp
next
  case (Cons chunk chunks)
  let ?self' = "snd (deflate_decode Z self chunk)"
  have "\<not> first_attempt ?self'" by (rule deflate_decode_clears_flag)
  moreover from Cons.prems
  have "decompressor ?self' = snd (decompress Z (decompressor self) chunk)"
    by (simp add: deflate_decode_not_first split: prod.splits sum.splits)
  ultimately show ?case using Cons.IH [of ?self'] by simp
qed

text \<open>
  C5. When framed decompression of a chunk fails while \<open>first_attempt\<close> is still set
  (it is set by the constructor and cleared by every \<open>decode\<close> call, so this is the
  very first call), the decompressor is replaced by a fresh one with negative window
  bits and the same chunk is decompressed once more: the result of \<open>decode\<close> is the
  result of that single retry, an error of the retry being raised as \<open>ValueError\<close>.
  When \<open>first_attempt\<close> is already false, a failure is raised as \<open>ValueError\<close> at
  once and the decompressor is the one the failed call left, not a fresh one.
\<close>

theorem deflate_fallback_once:
  "first_attempt (deflate_init Z)
   \<and> decompressor (deflate_init Z) = decompressobj Z MAX_WBITS
   \<and> \<not> first_attempt (snd (deflate_decode Z self data))
   \<and> (first_attempt self \<and> decompress Z (decompressor self) data = (Inl exc, z) \<longrightarrow>
        deflate_decode Z self data =
          (case decompress Z (decompressobj Z (- MAX_WBITS)) data of
             (Inr out, z') \<Rightarrow> (Inr out, \<lparr>first_attempt = False, decompressor = z'\<rparr>)
           | (Inl exc', z') \<Rightarrow>
               (Inl (ValueError exc'), \<lparr>first_attempt = False, decompressor = z'\<rparr>)))
   \<and> (\<not> first_attempt self \<and> decompress Z (decompressor self) data = (Inl exc, z) \<longrightarrow>
        deflate_decode Z self data =
          (Inl (ValueError exc), \<lparr>first_attempt = False, decompressor = z\<rparr>))"
proof -
  have "first_attempt (deflate_init Z)"
    and "decompressor (deflate_init Z) = decompressobj Z MAX_WBITS"
    by (simp_all add: deflate_init_def)
  moreover have "\<not> first_attempt (snd (deflate_decode Z self data))"
    by (rule deflate_decode_clears_flag)
  moreover have "deflate_decode Z self data =
      (case decompress Z (decompressobj Z (- MAX_WBITS)) data of
         (Inr out, z') \<Rightarrow> (Inr out, \<lparr>first_attempt = False, decompressor = z'\<rparr>)
       | (Inl exc', z') \<Rightarrow>
           (Inl (ValueError exc'), \<lparr>first_attempt = False, decompressor = z'\<rparr>))"
    if "first_attempt self" "decompress Z (decompressor self) data = (Inl exc, z)"
    using that by (cases self) (simp add: deflate_decode_first split: prod.splits sum.splits)
  moreover have "deflate_decode Z self data =
      (Inl (ValueError exc), \<lparr>first_attempt = False, decompressor = z\<rparr>)"
    if "\<not> first_attempt self" "decompress Z (decompressor self) data = (Inl exc, z)"
    using that by (cases self) (simp add: deflate_decode_not_first)
  ultimately show ?thesis by blast
qed

text \<open>
  With the toy engine: a first chunk without the header byte is retried as raw
  deflate and succeeds; a corrupt first chunk fails in the retry too; the same
  corrupt chunk after a successful first call fails at once.
\<close>

theorem deflate_fallback_once_witness:
  "deflate_decode toy_zlib (deflate_init toy_zlib) [0x01, 0x02] =
     (Inr [0x01, 0x02],
      \<lparr>first_attempt = False, decompressor = \<lparr>tz_wbits = - 15, tz_started = True\<rparr>\<rparr>)
   \<and> deflate_decode toy_zlib (deflate_init toy_zlib) [0x01, 0xFF] =
     (Inl (ValueError ''invalid block type''),
      \<lparr>first_attempt = False, decompressor = \<lparr>tz_wbits = - 15, tz_started = True\<rparr>\<rparr>)
   \<and> deflate_decode toy_zlib
       \<lparr>first_attempt = False, decompressor = \<lparr>tz_wbits = 15, tz_started = True\<rparr>\<rparr>
       [0x01, 0xFF] =
     (Inl (ValueError ''invalid block type''),
      \<lparr>first_attempt = False, decompressor = \<lparr>tz_wbits = 15, tz_started = True\<rparr>\<rparr>)"
proof -
  have a: "first_attempt (deflate_init toy_zlib) \<and>
      decompress toy_zlib (decompressor (deflate_init toy_zlib)) [0x01, 0x02] =
        (Inl ''incorrect header check'', \<lparr>tz_wbits = 15, tz_started = False\<rparr>)"
    by (simp add: deflate_init_def toy_zlib_def toy_decompress_def MAX_WBITS_def)
  have b: "first_attempt (deflate_init toy_zlib) \<and>
      decompress toy_zlib (decompressor (deflate_init toy_zlib)) [0x01, 0xFF] =
        (Inl ''incorrect header check'', \<lparr>tz_wbits = 15, tz_started = False\<rparr>)"
    by (simp add: deflate_init_def toy_zlib_def toy_decompress_def MAX_WBITS_def)
  have c: "\<not> first_attempt
        \<lparr>first_attempt = False, decompressor = \<lparr>tz_wbits = 15, tz_started = True\<rparr>\<rparr> \<and>
      decompress toy_zlib
        (decompressor
          \<lparr>first_attempt = False, decompressor = \<lparr>tz_wbits = 15, tz_started = True\<rparr>\<rparr>)
        [0x01, 0xFF] =
        (Inl ''invalid block type'', \<lparr>tz_wbits = 15, tz_started = True\<rparr>)"
    by (simp add: toy_zlib_def toy_decompress_def)
  from a deflate_fallback_once [of toy_zlib "deflate_init toy_zlib" "[0x01, 0x02]"
      "''incorrect header check''" "\<lparr>tz_wbits = 15, tz_started = False\<rparr>"]
  have "deflate_decode toy_zlib (deflate_init toy_zlib) [0x01, 0x02] =
      (case decompress toy_zlib (decompressobj toy_zlib (- MAX_WBITS)) [0x01, 0x02] of
         (Inr out, z') \<Rightarrow> (Inr out, \<lparr>first_attempt = False, decompressor = z'\<rparr>)
       | (Inl exc', z') \<Rightarrow>
           (Inl (ValueError exc'), \<lparr>first_attempt = False, decompressor = z'\<rparr>))"
    by blast
  then have 1: "deflate_decode toy_zlib (deflate_init toy_zlib) [0x01, 0x02] =
     (Inr [0x01, 0x02],
      \<lparr>first_attempt = False, decompressor = \<lparr>tz_wbits = - 15, tz_started = True\<rparr>\<rparr>)"
    by (simp add: toy_zlib_def toy_decompress_def MAX_WBITS_def)
  from b deflate_fallback_once [of toy_zlib "deflate_init toy_zlib" "[0x01, 0xFF]"
      "''incorrect header check''" "\<lparr>tz_wbits = 15, tz_started = False\<rparr>"]
  have "deflate_decode toy_zlib (deflate_init toy_zlib) [0x01, 0xFF] =
      (case decompress toy_zlib (decompressobj toy_zlib (- MAX_WBITS)) [0x01, 0xFF] of
         (Inr out, z') \<Rightarrow> (Inr out, \<lparr>first_attempt = False, decompressor = z'\<rparr>)
       | (Inl exc', z') \<Rightarrow>
           (Inl (ValueError exc'), \<lparr>first_attempt = False, decompressor = z'\<rparr>))"
    by blast
  then have 2: "deflate_decode toy_zlib (deflate_init toy_zlib) [0x01, 0xFF] =
     (Inl (ValueError ''invalid block type''),
      \<lparr>first_attempt = False, decompressor = \<lparr>tz_wbits = - 15, tz_started = True\<rparr>\<rparr>)"
    by (simp add: toy_zlib_def toy_decompress_def MAX_WBITS_def)
  from c deflate_fallback_once [of toy_zlib
      "\<lparr>first_attempt = False, decompressor = \<lparr>tz_wbits = 15, tz_started = True\<rparr>\<rparr>"
      "[0x01, 0xFF]" "''invalid block type''" "\<lparr>tz_wbits = 15, tz_started = True\<rparr>"]
  have 3: "deflate_decode toy_zlib
       \<lparr>first_attempt = False, decompressor = \<lparr>tz_wbits = 15, tz_started = True\<rparr>\<rparr>
       [0x01, 0xFF] =
     (Inl (ValueError ''invalid block type''),
      \<lparr>first_attempt = False, decompressor = \<lparr>tz_wbits = 15, tz_started = True\<rparr>\<rparr>)"
    by blast
  from 1 2 3 show ?thesis by blast
qed

text \<open>
  C10. The retry is available to the first \<open>decode\<close> call only: whatever chunk that
  call is given and whatever it returns or raises, \<open>first_attempt\<close> is cleared after
  it. When the first call is given an empty chunk and the framed decompressor
  returns normally on it, the decoder keeps the framed decompressor and has
  \<open>first_attempt\<close> cleared; after any further calls on which \<open>first_attempt\<close> stays
  cleared the decompressor is still the framed one, advanced by the chunks it was
  given; and then a \<open>zlib.error\<close> on a chunk is raised as \<open>ValueError\<close> at once, with
  no retry as raw deflate.
\<close>

theorem deflate_empty_first_chunk_spends_fallback:
  assumes "decompress Z (decompressobj Z MAX_WBITS) [] = (Inr out0, z0)"
    and "self = deflate_after Z (deflate_init Z) ([] # chunks)"
    and "decompress Z (decompressor self) data = (Inl exc, z)"
  shows "\<not> first_attempt (snd (deflate_decode Z (deflate_init Z) first_chunk))
    \<and> deflate_decode Z (deflate_init Z) [] =
      (Inr out0, \<lparr>first_attempt = False, decompressor = z0\<rparr>)
    \<and> decompressor self = fold (\<lambda>chunk z. snd (decompress Z z chunk)) chunks z0
    \<and> deflate_decode Z self data =
      (Inl (ValueError exc), \<lparr>first_attempt = False, decompressor = z\<rparr>)"
proof -
  let ?self1 = "\<lparr>first_attempt = False, decompressor = z0\<rparr>"
  from assms(1) have first: "deflate_decode Z (deflate_init Z) [] = (Inr out0, ?self1)"
    by (simp add: deflate_decode_first deflate_init_def)
  with assms(2) have self: "self = deflate_after Z ?self1 chunks" by simp
  have nf: "\<not> first_attempt ?self1" by simp
  from deflate_after_not_first [OF nf, of Z chunks] self
  have flag: "\<not> first_attempt self"
    and dz: "decompressor self = fold (\<lambda>chunk z. snd (decompress Z z chunk)) chunks z0"
    by simp_all
  from flag assms(3)
  have "deflate_decode Z self data =
      (Inl (ValueError exc), \<lparr>first_attempt = False, decompressor = z\<rparr>)"
    by (cases self) (simp add: deflate_decode_not_first)
  with first dz deflate_decode_clears_flag [of Z "deflate_init Z" first_chunk]
  show ?thesis by simp
qed

text \<open>
  With the toy engine: the raw stream \<open>[0x01, 0x02]\<close>, which a fresh decoder decodes
  through the retry, is refused by a decoder whose first call was given \<open>b""\<close>.
\<close>

theorem deflate_empty_first_chunk_spends_fallback_witness:
  "deflate_decode toy_zlib (deflate_after toy_zlib (deflate_init toy_zlib) [[]]) [0x01, 0x02] =
     (Inl (ValueError ''incorrect header check''),
      \<lparr>first_attempt = False, decompressor = \<lparr>tz_wbits = 15, tz_started = False\<rparr>\<rparr>)"
proof -
  have a: "decompress toy_zlib (decompressobj toy_zlib MAX_WBITS) [] =
      (Inr [], \<lparr>tz_wbits = 15, tz_started = False\<rparr>)"
    by (simp add: toy_zlib_def toy_decompress_def MAX_WBITS_def)
  have s: "deflate_after toy_zlib (deflate_init toy_zlib) ([] # []) =
      \<lparr>first_attempt = False, decompressor = \<lparr>tz_wbits = 15, tz_started = False\<rparr>\<rparr>"
    by (simp add: deflate_decode_first deflate_init_def toy_zlib_def toy_decompress_def
        MAX_WBITS_def)
  have c: "decompress toy_zlib
        (decompressor (deflate_after toy_zlib (deflate_init toy_zlib) ([] # [])))
        [0x01, 0x02] =
      (Inl ''incorrect header check'', \<lparr>tz_wbits = 15, tz_started = False\<rparr>)"
    by (subst s) (simp add: toy_zlib_def toy_decompress_def)
  from deflate_empty_first_chunk_spends_fallback [OF a refl c]
  show ?thesis by blast
qed

section \<open>MultiDecoder\<close>

text \<open>
  The children of a MultiDecoder are objects with a \<open>decode\<close> and a \<open>flush\<close> method.
  A child is a value of a type \<open>'c\<close>, and the two methods are the parameters
  \<open>dec\<close> and \<open>fl\<close>: they return the bytes or the exception raised, with the child as
  the call left it. An exception of a child leaves the loop; the children behind it
  have not been touched.
\<close>

record 'c multi_decoder =
  children :: "'c list"

definition multi_init :: "'c list \<Rightarrow> 'c multi_decoder" where
  "multi_init cs = \<lparr>children = rev cs\<rparr>"

text \<open>The loop of \<open>decode\<close>: \<open>for child in self.children: data = child.decode(data)\<close>.\<close>

fun multi_decode_loop ::
  "('c \<Rightarrow> bytes \<Rightarrow> (exn + bytes) \<times> 'c) \<Rightarrow> 'c list \<Rightarrow> bytes \<Rightarrow> (exn + bytes) \<times> 'c list" where
  "multi_decode_loop dec [] data = (Inr data, [])"
| "multi_decode_loop dec (child # rest) data =
     (case dec child data of
        (Inl e, child') \<Rightarrow> (Inl e, child' # rest)
      | (Inr data', child') \<Rightarrow>
          (case multi_decode_loop dec rest data' of
             (r, rest') \<Rightarrow> (r, child' # rest')))"

definition multi_decode ::
  "('c \<Rightarrow> bytes \<Rightarrow> (exn + bytes) \<times> 'c) \<Rightarrow> 'c multi_decoder \<Rightarrow> bytes \<Rightarrow>
   (exn + bytes) \<times> 'c multi_decoder" where
  "multi_decode dec self data =
     (case multi_decode_loop dec (children self) data of
        (r, cs) \<Rightarrow> (r, self\<lparr>children := cs\<rparr>))"

text \<open>
  The loop of \<open>flush\<close>: \<open>data = child.decode(data) + child.flush()\<close> for each child,
  \<open>decode\<close> before \<open>flush\<close>, starting from \<open>data = b""\<close>.
\<close>

fun multi_flush_loop ::
  "('c \<Rightarrow> bytes \<Rightarrow> (exn + bytes) \<times> 'c) \<Rightarrow> ('c \<Rightarrow> (exn + bytes) \<times> 'c) \<Rightarrow>
   'c list \<Rightarrow> bytes \<Rightarrow> (exn + bytes) \<times> 'c list" where
  "multi_flush_loop dec fl [] data = (Inr data, [])"
| "multi_flush_loop dec fl (child # rest) data =
     (case dec child data of
        (Inl e, child') \<Rightarrow> (Inl e, child' # rest)
      | (Inr decoded, child') \<Rightarrow>
          (case fl child' of
             (Inl e, child'') \<Rightarrow> (Inl e, child'' # rest)
           | (Inr flushed, child'') \<Rightarrow>
               (case multi_flush_loop dec fl rest (decoded @ flushed) of
                  (r, rest') \<Rightarrow> (r, child'' # rest'))))"

definition multi_flush ::
  "('c \<Rightarrow> bytes \<Rightarrow> (exn + bytes) \<times> 'c) \<Rightarrow> ('c \<Rightarrow> (exn + bytes) \<times> 'c) \<Rightarrow>
   'c multi_decoder \<Rightarrow> (exn + bytes) \<times> 'c multi_decoder" where
  "multi_flush dec fl self =
     (case multi_flush_loop dec fl (children self) [] of
        (r, cs) \<Rightarrow> (r, self\<lparr>children := cs\<rparr>))"

subsection \<open>The decoders of the module as children\<close>

datatype 'z content_decoder =
  IdentityDecoder
  | DeflateDecoder "'z deflate_decoder"
  | GZipDecoder "'z gzip_decoder"

fun content_decode ::
  "'z zlib \<Rightarrow> 'z content_decoder \<Rightarrow> bytes \<Rightarrow> (exn + bytes) \<times> 'z content_decoder" where
  "content_decode Z IdentityDecoder data = (identity_decode data, IdentityDecoder)"
| "content_decode Z (DeflateDecoder d) data =
     (case deflate_decode Z d data of (r, d') \<Rightarrow> (r, DeflateDecoder d'))"
| "content_decode Z (GZipDecoder g) data =
     (case gzip_decode Z g data of (r, g') \<Rightarrow> (r, GZipDecoder g'))"

fun content_flush :: "'z zlib \<Rightarrow> 'z content_decoder \<Rightarrow> (exn + bytes) \<times> 'z content_decoder" where
  "content_flush Z IdentityDecoder = (identity_flush, IdentityDecoder)"
| "content_flush Z (DeflateDecoder d) =
     (case deflate_flush Z d of (r, d') \<Rightarrow> (r, DeflateDecoder d'))"
| "content_flush Z (GZipDecoder g) =
     (case gzip_flush Z g of (r, g') \<Rightarrow> (r, GZipDecoder g'))"

subsection \<open>The composite as the specification words it\<close>

text \<open>
  The specification describes the composite on the list of decoders in the order
  the encodings were applied: decoding undoes them in reverse, the output of one
  stage being the input of the next. \<open>undo_applied\<close> says this by recursion on the
  applied order: the encoding applied first is undone last, on what undoing the later
  encodings gave. The children are returned in the applied order.
\<close>

fun undo_applied ::
  "('c \<Rightarrow> bytes \<Rightarrow> (exn + bytes) \<times> 'c) \<Rightarrow> 'c list \<Rightarrow> bytes \<Rightarrow> (exn + bytes) \<times> 'c list" where
  "undo_applied dec [] data = (Inr data, [])"
| "undo_applied dec (c # cs) data =
     (case undo_applied dec cs data of
        (Inl e, cs') \<Rightarrow> (Inl e, c # cs')
      | (Inr upstream, cs') \<Rightarrow>
          (case dec c upstream of (r, c') \<Rightarrow> (r, c' # cs')))"

text \<open>
  For \<open>flush\<close> the specification has every stage pass on its \<open>decode\<close> output for
  what the stages before it released, followed by its own \<open>flush\<close> output; the stage
  processed first has nothing before it, so its \<open>decode\<close> pass is on \<open>b""\<close>.
\<close>

fun flush_applied ::
  "('c \<Rightarrow> bytes \<Rightarrow> (exn + bytes) \<times> 'c) \<Rightarrow> ('c \<Rightarrow> (exn + bytes) \<times> 'c) \<Rightarrow>
   'c list \<Rightarrow> (exn + bytes) \<times> 'c list" where
  "flush_applied dec fl [] = (Inr [], [])"
| "flush_applied dec fl (c # cs) =
     (case flush_applied dec fl cs of
        (Inl e, cs') \<Rightarrow> (Inl e, c # cs')
      | (Inr upstream, cs') \<Rightarrow>
          (case dec c upstream of
             (Inl e, c') \<Rightarrow> (Inl e, c' # cs')
           | (Inr decoded, c') \<Rightarrow>
               (case fl c' of
                  (Inl e, c'') \<Rightarrow> (Inl e, c'' # cs')
                | (Inr flushed, c'') \<Rightarrow> (Inr (decoded @ flushed), c'' # cs'))))"

subsection \<open>A toy pair of children for concrete instances\<close>

text \<open>
  \<open>Hold\<close> keeps every byte it is given and releases them at \<open>flush\<close>; \<open>Bump\<close> adds one
  to every byte at once and has nothing to release.
\<close>

datatype toy_child = Hold bytes | Bump

fun toy_child_decode :: "toy_child \<Rightarrow> bytes \<Rightarrow> (exn + bytes) \<times> toy_child" where
  "toy_child_decode (Hold held) data = (Inr [], Hold (held @ data))"
| "toy_child_decode Bump data = (Inr (map (\<lambda>b. b + 1) data), Bump)"

fun toy_child_flush :: "toy_child \<Rightarrow> (exn + bytes) \<times> toy_child" where
  "toy_child_flush (Hold held) = (Inr held, Hold [])"
| "toy_child_flush Bump = (Inr [], Bump)"

subsection \<open>Properties of MultiDecoder\<close>

lemma multi_decode_loop_snoc:
  "multi_decode_loop dec (xs @ [c]) data =
     (case multi_decode_loop dec xs data of
        (Inl e, xs') \<Rightarrow> (Inl e, xs' @ [c])
      | (Inr upstream, xs') \<Rightarrow>
          (case dec c upstream of (r, c') \<Rightarrow> (r, xs' @ [c'])))"
  by (induction xs arbitrary: data) (auto split: prod.splits sum.splits)

lemma multi_decode_loop_rev:
  "multi_decode_loop dec (rev cs) data =
     (case undo_applied dec cs data of (r, cs') \<Rightarrow> (r, rev cs'))"
  by (induction cs) (auto simp: multi_decode_loop_snoc split: prod.splits sum.splits)

lemma multi_flush_loop_snoc:
  "multi_flush_loop dec fl (xs @ [c]) data =
     (case multi_flush_loop dec fl xs data of
        (Inl e, xs') \<Rightarrow> (Inl e, xs' @ [c])
      | (Inr upstream, xs') \<Rightarrow>
          (case dec c upstream of
             (Inl e, c') \<Rightarrow> (Inl e, xs' @ [c'])
           | (Inr decoded, c') \<Rightarrow>
               (case fl c' of
                  (Inl e, c'') \<Rightarrow> (Inl e, xs' @ [c''])
                | (Inr flushed, c'') \<Rightarrow> (Inr (decoded @ flushed), xs' @ [c'']))))"
  by (induction xs arbitrary: data) (auto split: prod.splits sum.splits)

lemma multi_flush_loop_rev:
  "multi_flush_loop dec fl (rev cs) [] =
     (case flush_applied dec fl cs of (r, cs') \<Rightarrow> (r, rev cs'))"
  by (induction cs) (auto simp: multi_flush_loop_snoc split: prod.splits sum.splits)

lemma multi_decode_loop_length:
  "multi_decode_loop dec xs d = (r, xs') \<Longrightarrow> length xs' = length xs"
  by (induction xs arbitrary: d r xs') (auto split: prod.splits sum.splits)

lemma multi_flush_loop_length:
  "multi_flush_loop dec fl xs d = (r, xs') \<Longrightarrow> length xs' = length xs"
  by (induction xs arbitrary: d r xs') (auto split: prod.splits sum.splits)

text \<open>
  C6. A MultiDecoder built from the decoders \<open>cs\<close>, given in the order the encodings
  were applied, stores \<open>rev cs\<close>. A \<open>decode\<close> call threads the chunk through the
  children in that stored order, each output being the next input: the decoder of the
  encoding applied last runs first, and the result and the children left behind are
  those of \<open>undo_applied\<close>. \<open>flush\<close> goes through the children in the same stored
  order, starting from \<open>b""\<close>: every child decodes what the children before it
  released and appends its own \<open>flush\<close> output, so what a child releases at \<open>flush\<close>
  passes through the \<open>decode\<close> of every child after it; the result is that of
  \<open>flush_applied\<close>. The stored order is never changed by either call.
\<close>

theorem multi_decoder_threads_in_reverse:
  "children (multi_init cs) = rev cs
   \<and> multi_decode dec (multi_init cs) data =
       (case undo_applied dec cs data of (r, cs') \<Rightarrow> (r, \<lparr>children = rev cs'\<rparr>))
   \<and> multi_flush dec fl (multi_init cs) =
       (case flush_applied dec fl cs of (r, cs') \<Rightarrow> (r, \<lparr>children = rev cs'\<rparr>))
   \<and> length (children (snd (multi_decode dec self data))) = length (children self)
   \<and> length (children (snd (multi_flush dec fl self))) = length (children self)"
proof -
  have "children (multi_init cs) = rev cs"
    by (simp add: multi_init_def)
  moreover have "multi_decode dec (multi_init cs) data =
      (case undo_applied dec cs data of (r, cs') \<Rightarrow> (r, \<lparr>children = rev cs'\<rparr>))"
    by (simp add: multi_decode_def multi_init_def multi_decode_loop_rev split: prod.splits)
  moreover have "multi_flush dec fl (multi_init cs) =
      (case flush_applied dec fl cs of (r, cs') \<Rightarrow> (r, \<lparr>children = rev cs'\<rparr>))"
    by (simp add: multi_flush_def multi_init_def multi_flush_loop_rev split: prod.splits)
  moreover have "length (children (snd (multi_decode dec self data))) = length (children self)"
    by (auto simp: multi_decode_def dest: multi_decode_loop_length split: prod.splits)
  moreover have "length (children (snd (multi_flush dec fl self))) = length (children self)"
    by (auto simp: multi_flush_def dest: multi_flush_loop_length split: prod.splits)
  ultimately show ?thesis by simp
qed

text \<open>
  Two instances. With the toy engine, a payload byte wrapped first by gzip and then
  by deflate is recovered by the composite built from \<open>[gzip, deflate]\<close>: deflate is
  undone first. With the toy children \<open>[Bump, Hold]\<close>, the bytes that \<open>Hold\<close> releases
  only at \<open>flush\<close> come out of \<open>flush\<close> having passed through \<open>Bump\<close>.
\<close>

theorem multi_decoder_threads_in_reverse_witness:
  "fst (multi_decode (content_decode toy_zlib)
         (multi_init [GZipDecoder (gzip_init toy_zlib), DeflateDecoder (deflate_init toy_zlib)])
         [0x78, 0x78, 0x05]) = Inr [0x05]
   \<and> multi_decode toy_child_decode (multi_init [Bump, Hold []]) [0x01, 0x02] =
       (Inr [], \<lparr>children = [Hold [0x01, 0x02], Bump]\<rparr>)
   \<and> multi_flush toy_child_decode toy_child_flush \<lparr>children = [Hold [0x01, 0x02], Bump]\<rparr> =
       (Inr [0x02, 0x03], \<lparr>children = [Hold [], Bump]\<rparr>)"
proof -
  have "fst (multi_decode (content_decode toy_zlib)
         (multi_init [GZipDecoder (gzip_init toy_zlib), DeflateDecoder (deflate_init toy_zlib)])
         [0x78, 0x78, 0x05]) = Inr [0x05]"
    using multi_decoder_threads_in_reverse
      [where cs = "[GZipDecoder (gzip_init toy_zlib), DeflateDecoder (deflate_init toy_zlib)]"
        and dec = "content_decode toy_zlib" and data = "[0x78, 0x78, 0x05]"]
    by (simp add: deflate_decode_first deflate_init_def gzip_init_def gzip_decode_def
        toy_zlib_def toy_decompress_def MAX_WBITS_def)
  moreover have "multi_decode toy_child_decode (multi_init [Bump, Hold []]) [0x01, 0x02] =
       (Inr [], \<lparr>children = [Hold [0x01, 0x02], Bump]\<rparr>)"
    using multi_decoder_threads_in_reverse
      [where cs = "[Bump, Hold []]" and dec = toy_child_decode and data = "[0x01, 0x02]"]
    by simp
  moreover have "multi_flush toy_child_decode toy_child_flush
        (multi_init [Bump, Hold [0x01, 0x02]]) =
       (Inr [0x02, 0x03], \<lparr>children = [Hold [], Bump]\<rparr>)"
    using multi_decoder_threads_in_reverse
      [where cs = "[Bump, Hold [0x01, 0x02]]" and dec = toy_child_decode
        and fl = toy_child_flush]
    by simp
  ultimately show ?thesis by (simp add: multi_init_def)
qed

section \<open>LineDecoder\<close>

record line_decoder =
  ld_buffer :: string

definition line_decoder_init :: line_decoder where
  "line_decoder_init = \<lparr>ld_buffer = []\<rparr>"

text \<open>
  The body of \<open>for idx in range(num_chars)\<close>, started at \<open>idx\<close>. The result is
  the lines appended, the new buffer and the new text at the \<open>break\<close>. When the
  range is used up with no \<open>break\<close> nothing has changed.
\<close>

function for_idx :: "string \<Rightarrow> string \<Rightarrow> nat \<Rightarrow> string list \<times> string \<times> string" where
  "for_idx buffer text idx =
     (if length text \<le> idx then ([], buffer, text)
      else
        let char = text ! idx;
            next_char = (if idx + 1 = length text then None else Some (text ! (idx + 1)))
        in
          if char = LF then
            ([buffer @ take (idx + 1) text], [], drop (idx + 1) text)
          else if char = CR \<and> next_char = Some LF then
            ([buffer @ take idx text @ [LF]], [], drop (idx + 2) text)
          else if char = CR \<and> next_char \<noteq> None then
            ([buffer @ take idx text @ [LF]], [], drop (idx + 1) text)
          else if next_char = None then
            ([], buffer @ text, [])
          else for_idx buffer text (idx + 1))"
  by pat_completeness auto
termination
  by (relation "measure (\<lambda>(buffer, text, idx). length text - idx)") auto

declare for_idx.simps [simp del]

lemma for_idx_shrinks:
  "idx < length s \<Longrightarrow> for_idx buffer s idx = (ls, b, t) \<Longrightarrow> length t < length s"
proof (induction buffer s idx rule: for_idx.induct)
  case (1 buffer s idx)
  show ?case
  proof (cases "s ! idx \<noteq> LF \<and> s ! idx \<noteq> CR \<and> idx + 1 \<noteq> length s")
    case True
    with "1.prems" have "for_idx buffer s (idx + 1) = (ls, b, t)"
      by (simp add: for_idx.simps [of buffer s idx])
    moreover from True "1.prems" have "idx + 1 < length s" by simp
    ultimately show ?thesis
      using "1.IH" [OF _ refl refl] True "1.prems"(1) by simp
  next
    case False
    with "1.prems" show ?thesis
      by (auto simp: for_idx.simps [of buffer s idx] Let_def split: if_splits)
  qed
qed

lemma for_idx_shrinks0:
  "s \<noteq> [] \<Longrightarrow> (ls, b, t) = for_idx buffer s 0 \<Longrightarrow> length t < length s"
  using for_idx_shrinks [of 0 s buffer ls b t] by simp

text \<open>The \<open>while text:\<close> loop of \<open>decode\<close>.\<close>

function while_text :: "string \<Rightarrow> string \<Rightarrow> string list \<times> string" where
  "while_text buffer text =
     (if text = [] then ([], buffer)
      else
        (case for_idx buffer text 0 of
           (ls, buffer', text') \<Rightarrow>
             (case while_text buffer' text' of
                (ls', buffer'') \<Rightarrow> (ls @ ls', buffer''))))"
  by pat_completeness auto
termination
  apply (relation "measure (\<lambda>(buffer, text). length text)")
   apply simp
  apply (auto intro: for_idx_shrinks0)
  done

declare while_text.simps [simp del]

definition line_decode :: "line_decoder \<Rightarrow> string \<Rightarrow> string list \<times> line_decoder" where
  "line_decode self text =
     (case
        (if text \<noteq> [] \<and> ld_buffer self \<noteq> [] \<and> last (ld_buffer self) = CR then
           (if hd text = LF then
              ([butlast (ld_buffer self) @ [LF]], [], tl text)
            else
              ([butlast (ld_buffer self) @ [LF]], [], text))
         else ([], ld_buffer self, text))
      of (lines0, buffer0, text0) \<Rightarrow>
        (case while_text buffer0 text0 of
           (ls, buffer1) \<Rightarrow> (lines0 @ ls, self\<lparr>ld_buffer := buffer1\<rparr>)))"

definition line_flush :: "line_decoder \<Rightarrow> string list \<times> line_decoder" where
  "line_flush self =
     ((if ld_buffer self \<noteq> [] \<and> last (ld_buffer self) = CR then
         [butlast (ld_buffer self) @ [LF]]
       else if ld_buffer self \<noteq> [] then [ld_buffer self]
       else []),
      self\<lparr>ld_buffer := []\<rparr>)"

text \<open>Feeding a sequence of chunks, one \<open>decode\<close> call per chunk.\<close>

fun line_decode_chunks :: "line_decoder \<Rightarrow> string list \<Rightarrow> string list \<times> line_decoder" where
  "line_decode_chunks self [] = ([], self)"
| "line_decode_chunks self (chunk # chunks) =
     (case line_decode self chunk of
        (ls, self') \<Rightarrow>
          (case line_decode_chunks self' chunks of
             (ls', self'') \<Rightarrow> (ls @ ls', self'')))"

text \<open>All lines of a stream: the lines of the \<open>decode\<close> calls, then those of \<open>flush\<close>.\<close>

definition line_stream :: "string list \<Rightarrow> string list" where
  "line_stream chunks =
     (case line_decode_chunks line_decoder_init chunks of
        (ls, self) \<Rightarrow> ls @ fst (line_flush self))"


subsection \<open>A character-at-a-time reference automaton\<close>

text \<open>
  The proofs below compare \<open>decode\<close> with an automaton that reads one character at
  a time and keeps the pending buffer as its only state. It is a proof device, not
  part of the program.
\<close>

definition ends_cr :: "string \<Rightarrow> bool" where
  "ends_cr buffer = (buffer \<noteq> [] \<and> last buffer = CR)"

definition plain_char :: "string \<Rightarrow> char \<Rightarrow> string list \<times> string" where
  "plain_char buffer c = (if c = LF then ([buffer @ [LF]], []) else ([], buffer @ [c]))"

definition feed_char :: "string \<Rightarrow> char \<Rightarrow> string list \<times> string" where
  "feed_char buffer c =
     (if ends_cr buffer then
        (if c = LF then ([butlast buffer @ [LF]], [])
         else (case plain_char [] c of (ls, b) \<Rightarrow> ((butlast buffer @ [LF]) # ls, b)))
      else plain_char buffer c)"

fun feed_chars :: "string \<Rightarrow> string \<Rightarrow> string list \<times> string" where
  "feed_chars buffer [] = ([], buffer)"
| "feed_chars buffer (c # cs) =
     (case feed_char buffer c of
        (ls, b) \<Rightarrow> (case feed_chars b cs of (ls', b') \<Rightarrow> (ls @ ls', b')))"

lemma feed_chars_append:
  "feed_chars buffer (s @ t) =
     (case feed_chars buffer s of
        (ls, b) \<Rightarrow> (case feed_chars b t of (ls', b') \<Rightarrow> (ls @ ls', b')))"
  by (induction s arbitrary: buffer) (auto split: prod.splits)

lemma ends_cr_simps [simp]:
  "\<not> ends_cr []"
  "ends_cr (b @ [c]) = (c = CR)"
  "ends_cr (a @ b @ [c]) = (c = CR)"
  by (simp_all add: ends_cr_def)

lemma for_idx_feed:
  "idx < length s \<Longrightarrow> \<not> ends_cr (buffer @ take idx s) \<Longrightarrow>
   for_idx buffer s idx = (ls, b, t) \<Longrightarrow>
   feed_chars (buffer @ take idx s) (drop idx s) =
     (case feed_chars b t of (ls', b') \<Rightarrow> (ls @ ls', b')) \<and> (t = [] \<or> b = [])"
proof (induction buffer s idx rule: for_idx.induct)
  case (1 buffer s idx)
  from "1.prems"(1) have dr: "drop idx s = s ! idx # drop (Suc idx) s"
    by (simp add: Cons_nth_drop_Suc)
  from "1.prems"(1) have tk: "take (Suc idx) s = take idx s @ [s ! idx]"
    by (simp add: take_Suc_conv_app_nth)
  show ?case
  proof (cases "s ! idx \<noteq> LF \<and> s ! idx \<noteq> CR \<and> idx + 1 \<noteq> length s")
    case True
    with "1.prems" have rec: "for_idx buffer s (idx + 1) = (ls, b, t)"
      by (simp add: for_idx.simps [of buffer s idx])
    from True "1.prems" have lt: "idx + 1 < length s" by simp
    from True have ne: "\<not> ends_cr (buffer @ take (idx + 1) s)"
      using tk ends_cr_simps(2) [of "buffer @ take idx s" "s ! idx"] by simp
    have "feed_chars (buffer @ take (idx + 1) s) (drop (idx + 1) s) =
        (case feed_chars b t of (ls', b') \<Rightarrow> (ls @ ls', b')) \<and> (t = [] \<or> b = [])"
      using "1.IH" [OF _ refl refl _ _ _ _ lt ne rec] True "1.prems"(1) by simp
    moreover have "feed_chars (buffer @ take idx s) (drop idx s) =
        feed_chars (buffer @ take (idx + 1) s) (drop (idx + 1) s)"
      using True "1.prems"(2) by (simp add: dr tk feed_char_def plain_char_def)
    ultimately show ?thesis by simp
  next
    case False
    consider (lf) "s ! idx = LF"
      | (crlf) "s ! idx = CR" "idx + 1 < length s" "s ! (idx + 1) = LF"
      | (cr) "s ! idx = CR" "idx + 1 < length s" "s ! (idx + 1) \<noteq> LF"
      | (last) "s ! idx \<noteq> LF" "idx + 1 = length s"
      using False "1.prems"(1) by (cases "idx + 1 = length s") auto
    then show ?thesis
    proof cases
      case lf
      with "1.prems" have "ls = [buffer @ take (idx + 1) s]" "b = []" "t = drop (idx + 1) s"
        by (simp_all add: for_idx.simps [of buffer s idx])
      with lf "1.prems"(2) show ?thesis
        by (simp add: dr tk feed_char_def plain_char_def split: prod.splits)
    next
      case crlf
      with "1.prems" have res: "ls = [buffer @ take idx s @ [LF]]" "b = []" "t = drop (idx + 2) s"
        by (simp_all add: for_idx.simps [of buffer s idx])
      from crlf have dr2: "drop (Suc idx) s = LF # drop (idx + 2) s"
        using Cons_nth_drop_Suc [of "Suc idx" s] by simp
      from crlf res "1.prems"(2) show ?thesis
        by (simp add: dr dr2 feed_char_def plain_char_def butlast_append split: prod.splits)
    next
      case cr
      with "1.prems" have res: "ls = [buffer @ take idx s @ [LF]]" "b = []" "t = drop (idx + 1) s"
        by (simp_all add: for_idx.simps [of buffer s idx])
      from cr have dr2: "drop (Suc idx) s = s ! (idx + 1) # drop (idx + 2) s"
        using Cons_nth_drop_Suc [of "Suc idx" s] by simp
      from cr res "1.prems"(2) show ?thesis
        by (simp add: dr dr2 feed_char_def plain_char_def butlast_append split: prod.splits)
    next
      case last
      with "1.prems" have res: "ls = []" "b = buffer @ s" "t = []"
        by (simp_all add: for_idx.simps [of buffer s idx])
      from last have "take idx s @ [s ! idx] = s"
        using tk by simp
      then have "buffer @ s = buffer @ take idx s @ [s ! idx]" by simp
      with last res "1.prems"(2) show ?thesis
        by (simp add: dr feed_char_def plain_char_def split: prod.splits)
    qed
  qed
qed

lemma while_text_feed:
  "\<not> ends_cr buffer \<Longrightarrow> while_text buffer s = feed_chars buffer s"
proof (induction buffer s rule: while_text.induct)
  case (1 buffer s)
  show ?case
  proof (cases "s = []")
    case True
    then show ?thesis by (simp add: while_text.simps [of buffer "[]"])
  next
    case False
    obtain ls b t where f: "for_idx buffer s 0 = (ls, b, t)"
      by (cases "for_idx buffer s 0") auto
    from False "1.prems" f
    have step: "feed_chars buffer s = (case feed_chars b t of (ls', b') \<Rightarrow> (ls @ ls', b'))"
      and bt: "t = [] \<or> b = []"
      using for_idx_feed [of 0 s buffer ls b t] by simp_all
    have "while_text b t = feed_chars b t"
    proof (cases "t = []")
      case True
      then show ?thesis by (simp add: while_text.simps [of b "[]"])
    next
      case False
      with bt have "\<not> ends_cr b" by simp
      with "1.IH" [OF \<open>s \<noteq> []\<close> f [symmetric] refl] show ?thesis by simp
    qed
    with False f step show ?thesis
      by (simp add: while_text.simps [of buffer s])
  qed
qed

lemma line_decode_feed:
  "line_decode self s =
     (case feed_chars (ld_buffer self) s of (ls, b) \<Rightarrow> (ls, self\<lparr>ld_buffer := b\<rparr>))"
proof (cases s)
  case Nil
  then show ?thesis
    by (simp add: line_decode_def while_text.simps [of _ "[]"])
next
  case (Cons c cs)
  show ?thesis
  proof (cases "ends_cr (ld_buffer self)")
    case True
    then show ?thesis
      using Cons
      by (auto simp: line_decode_def while_text_feed feed_char_def plain_char_def ends_cr_def
          split: prod.splits)
  next
    case False
    then show ?thesis
      using Cons while_text_feed [OF False, of s]
      by (auto simp: line_decode_def ends_cr_def split: prod.splits)
  qed
qed

lemma line_decode_chunks_feed:
  "line_decode_chunks self chunks =
     (case feed_chars (ld_buffer self) (concat chunks) of
        (ls, b) \<Rightarrow> (ls, self\<lparr>ld_buffer := b\<rparr>))"
  by (induction chunks arbitrary: self)
    (auto simp: line_decode_feed feed_chars_append split: prod.splits)

lemma feed_char_lines_end_lf:
  "feed_char buffer c = (ls, b) \<Longrightarrow> list_all (\<lambda>l. l \<noteq> [] \<and> last l = LF) ls"
  by (auto simp: feed_char_def plain_char_def split: if_splits)

lemma feed_chars_lines_end_lf:
  "feed_chars buffer s = (ls, b) \<Longrightarrow> list_all (\<lambda>l. l \<noteq> [] \<and> last l = LF) ls"
proof (induction s arbitrary: buffer ls b)
  case Nil
  then show ?case by simp
next
  case (Cons c cs)
  obtain l1 b1 where f1: "feed_char buffer c = (l1, b1)"
    by (cases "feed_char buffer c") auto
  obtain l2 b2 where f2: "feed_chars b1 cs = (l2, b2)"
    by (cases "feed_chars b1 cs") auto
  from Cons.prems f1 f2 have "ls = l1 @ l2" by simp
  with feed_char_lines_end_lf [OF f1] Cons.IH [OF f2] show ?case by simp
qed

subsection \<open>Chunking does not change the lines\<close>

text \<open>
  C4. For every text and every partition of it into chunks (any list \<open>chunks\<close>,
  empty chunks included, whose concatenation is the text), a fresh LineDecoder fed
  the chunks one \<open>decode\<close> call at a time returns, concatenated, the same lines
  and ends with the same buffer as a fresh LineDecoder fed the whole text in one
  \<open>decode\<close> call; so the lines followed by those of \<open>flush\<close> are the same list.
  Every line returned by \<open>decode\<close> ends with the terminator \<open>\n\<close>, whichever of
  \<open>\n\<close>, \<open>\r\n\<close> and bare \<open>\r\<close> ended it in the input.
\<close>

theorem line_decoder_chunking:
  "line_decode_chunks line_decoder_init chunks =
     line_decode line_decoder_init (concat chunks)
   \<and> line_stream chunks = line_stream [concat chunks]
   \<and> list_all (\<lambda>l. l \<noteq> [] \<and> last l = LF)
        (fst (line_decode_chunks line_decoder_init chunks))"
proof -
  obtain ls b where f: "feed_chars [] (concat chunks) = (ls, b)"
    by (cases "feed_chars [] (concat chunks)") auto
  have "line_decode_chunks line_decoder_init chunks =
      line_decode line_decoder_init (concat chunks)"
    by (simp add: line_decode_chunks_feed line_decode_feed)
  moreover have "line_stream chunks = line_stream [concat chunks]"
    by (simp add: line_stream_def line_decode_chunks_feed split: prod.splits)
  moreover have "list_all (\<lambda>l. l \<noteq> [] \<and> last l = LF)
      (fst (line_decode_chunks line_decoder_init chunks))"
    using feed_chars_lines_end_lf [OF f] f
    by (simp add: line_decode_chunks_feed line_decoder_init_def)
  ultimately show ?thesis by simp
qed

theorem line_decoder_chunking_witness:
  "line_stream [''a'' @ [CR], [LF] @ ''b'', [], [CR], ''c'' @ [LF, CR], [CR] @ ''d''] =
     [''a'' @ [LF], ''b'' @ [LF], ''c'' @ [LF], [LF], [LF], ''d'']"
proof -
  have "line_stream [''a'' @ [CR, LF] @ ''b'' @ [CR] @ ''c'' @ [LF, CR, CR] @ ''d''] =
      [''a'' @ [LF], ''b'' @ [LF], ''c'' @ [LF], [LF], [LF], ''d'']"
    by (simp add: line_stream_def line_decode_feed line_decoder_init_def feed_char_def
        plain_char_def ends_cr_def line_flush_def)
  then show ?thesis
    using line_decoder_chunking
      [of "[''a'' @ [CR], [LF] @ ''b'', [], [CR], ''c'' @ [LF, CR], [CR] @ ''d'']"]
    by simp
qed

section \<open>TextDecoder\<close>

subsection \<open>The encoding detector and the codecs (external)\<close>

text \<open>
  \<open>chardet\<close> and \<open>codecs\<close> are not part of the repository. A detector is a value of a
  type \<open>'det\<close> with the operations \<open>feed\<close>, \<open>close\<close> and the \<open>"encoding"\<close> entry of
  its result; an incremental decoder is a value of a type \<open>'dec\<close>.
  \<open>getincrementaldecoder\<close> gives \<open>None\<close> for a name it does not know (Python raises
  \<open>LookupError\<close>); \<open>inc_decode d data final\<close> returns the text or the message of
  \<open>UnicodeDecodeError\<close>, with the decoder as the call left it; \<open>bytes_decode\<close> is
  the one-shot \<open>bytes.decode(encoding)\<close>.
\<close>

datatype codec_error = UnicodeDecodeError string | UnknownEncoding string

record ('det, 'dec) text_env =
  new_detector :: 'det
  feed :: "'det \<Rightarrow> bytes \<Rightarrow> 'det"
  close :: "'det \<Rightarrow> 'det"
  result_encoding :: "'det \<Rightarrow> string option"
  getincrementaldecoder :: "string \<Rightarrow> 'dec option"
  inc_decode :: "'dec \<Rightarrow> bytes \<Rightarrow> bool \<Rightarrow> (string + string) \<times> 'dec"
  bytes_decode :: "bytes \<Rightarrow> string \<Rightarrow> codec_error + string"

subsection \<open>The class\<close>

record ('det, 'dec) text_decoder =
  decoder :: "'dec option"
  detector :: 'det
  buffer :: "bytes option"

text \<open>
  The constructor. A decoder object is true in \<open>None if self.decoder else bytearray()\<close>,
  so the buffer is \<open>None\<close> exactly when an encoding was declared.
\<close>

definition text_decoder_init ::
  "('det, 'dec) text_env \<Rightarrow> string option \<Rightarrow> exn + ('det, 'dec) text_decoder" where
  "text_decoder_init E encoding =
     (case encoding of
        None \<Rightarrow> Inr \<lparr>decoder = None, detector = new_detector E, buffer = Some []\<rparr>
      | Some enc \<Rightarrow>
          (case getincrementaldecoder E enc of
             None \<Rightarrow> Inl (LookupError enc)
           | Some d \<Rightarrow> Inr \<lparr>decoder = Some d, detector = new_detector E, buffer = None\<rparr>))"

definition detector_result ::
  "('det, 'dec) text_env \<Rightarrow> ('det, 'dec) text_decoder \<Rightarrow>
   (exn + string) \<times> ('det, 'dec) text_decoder" where
  "detector_result E self =
     (let self1 = self\<lparr>detector := close E (detector self)\<rparr> in
      case result_encoding E (detector self1) of
        None \<Rightarrow> (Inl (ValueError ''Unable to determine encoding of content''), self1)
      | Some result \<Rightarrow>
          if result = [] then
            (Inl (ValueError ''Unable to determine encoding of content''), self1)
          else (Inr result, self1))"

definition text_decode ::
  "('det, 'dec) text_env \<Rightarrow> ('det, 'dec) text_decoder \<Rightarrow> bytes \<Rightarrow>
   (exn + string) \<times> ('det, 'dec) text_decoder" where
  "text_decode E self data =
     (case decoder self of
        Some d \<Rightarrow>
          (case inc_decode E d data False of
             (Inr text, d') \<Rightarrow> (Inr text, self\<lparr>decoder := Some d'\<rparr>)
           | (Inl msg, d') \<Rightarrow> (Inl (ValueError msg), self\<lparr>decoder := Some d'\<rparr>))
      | None \<Rightarrow>
          (case buffer self of
             None \<Rightarrow> (Inl AssertionError, self)
           | Some buf \<Rightarrow>
               (let self1 = self\<lparr>detector := feed E (detector self) data\<rparr>;
                    self2 = self1\<lparr>buffer := Some (buf @ data)\<rparr>
                in
                  if 4096 \<le> length (buf @ data) then
                    (case detector_result E self2 of
                       (Inl e, self3) \<Rightarrow> (Inl e, self3)
                     | (Inr enc, self3) \<Rightarrow>
                         (case getincrementaldecoder E enc of
                            None \<Rightarrow> (Inl (LookupError enc), self3)
                          | Some d0 \<Rightarrow>
                              (case inc_decode E d0 (buf @ data) False of
                                 (Inl msg, d1) \<Rightarrow>
                                   (Inl (ValueError msg), self3\<lparr>decoder := Some d1\<rparr>)
                               | (Inr text, d1) \<Rightarrow>
                                   (Inr text, self3\<lparr>decoder := Some d1, buffer := None\<rparr>))))
                  else (Inr [], self2))))"

definition text_flush ::
  "('det, 'dec) text_env \<Rightarrow> ('det, 'dec) text_decoder \<Rightarrow>
   (exn + string) \<times> ('det, 'dec) text_decoder" where
  "text_flush E self =
     (case decoder self of
        None \<Rightarrow>
          (case buffer self of
             None \<Rightarrow> (Inl AssertionError, self)
           | Some buf \<Rightarrow>
               if length buf = 0 then (Inr [], self)
               else
                 (case detector_result E self of
                    (Inl e, self1) \<Rightarrow> (Inl e, self1)
                  | (Inr enc, self1) \<Rightarrow>
                      (case bytes_decode E buf enc of
                         Inr text \<Rightarrow> (Inr text, self1)
                       | Inl (UnicodeDecodeError msg) \<Rightarrow> (Inl (ValueError msg), self1)
                       | Inl (UnknownEncoding name) \<Rightarrow> (Inl (LookupError name), self1))))
      | Some d \<Rightarrow>
          (case inc_decode E d [] True of
             (Inr text, d') \<Rightarrow> (Inr text, self\<lparr>decoder := Some d'\<rparr>)
           | (Inl msg, d') \<Rightarrow> (Inl (ValueError msg), self\<lparr>decoder := Some d'\<rparr>)))"

text \<open>
  A sequence of \<open>decode\<close> calls: what each call returned or raised, and the decoder
  after the last one.
\<close>

fun text_decode_chunks ::
  "('det, 'dec) text_env \<Rightarrow> ('det, 'dec) text_decoder \<Rightarrow> bytes list \<Rightarrow>
   (exn + string) list \<times> ('det, 'dec) text_decoder" where
  "text_decode_chunks E self [] = ([], self)"
| "text_decode_chunks E self (chunk # chunks) =
     (case text_decode E self chunk of
        (r, self') \<Rightarrow>
          (case text_decode_chunks E self' chunks of
             (rs, self'') \<Rightarrow> (r # rs, self'')))"

text \<open>
  The same sequence of chunks given to an incremental decoder of \<open>codecs\<close> directly,
  a \<open>UnicodeDecodeError\<close> turned into \<open>ValueError\<close> as the handler in \<open>decode\<close> does.
\<close>

fun inc_decode_chunks ::
  "('det, 'dec) text_env \<Rightarrow> 'dec \<Rightarrow> bytes list \<Rightarrow> (exn + string) list \<times> 'dec" where
  "inc_decode_chunks E d [] = ([], d)"
| "inc_decode_chunks E d (chunk # chunks) =
     (case inc_decode E d chunk False of
        (r, d') \<Rightarrow>
          (case inc_decode_chunks E d' chunks of
             (rs, d'') \<Rightarrow>
               ((case r of Inr text \<Rightarrow> Inr text | Inl msg \<Rightarrow> Inl (ValueError msg)) # rs, d'')))"

text \<open>The decoder made by \<open>TextDecoder()\<close>, with no encoding declared.\<close>

definition text_decoder_undeclared :: "('det, 'dec) text_env \<Rightarrow> ('det, 'dec) text_decoder" where
  "text_decoder_undeclared E = \<lparr>decoder = None, detector = new_detector E, buffer = Some []\<rparr>"

text \<open>Exactly one of \<open>decoder\<close> and \<open>buffer\<close> is not \<open>None\<close>.\<close>

definition exactly_one_non_null :: "('det, 'dec) text_decoder \<Rightarrow> bool" where
  "exactly_one_non_null self = ((decoder self = None) \<noteq> (buffer self = None))"

subsection \<open>A toy detector and codec for concrete instances\<close>

text \<open>
  The toy detector remembers the bytes it was fed; once closed it reports nothing for
  no input, \<open>ascii\<close> when every byte is below \<open>0x80\<close> and \<open>gb2312\<close> otherwise. The
  toy \<open>ascii\<close> codec rejects bytes from \<open>0x80\<close>, the toy \<open>gb2312\<close> codec rejects the
  byte \<open>0xFF\<close>; a toy decoder is the name of its encoding.
\<close>

record toy_det =
  td_seen :: bytes
  td_closed :: bool

definition toy_result :: "toy_det \<Rightarrow> string option" where
  "toy_result det =
     (if \<not> td_closed det \<or> td_seen det = [] then None
      else if list_all (\<lambda>b. b < 0x80) (td_seen det) then Some ''ascii''
      else Some ''gb2312'')"

definition toy_chr :: "byte \<Rightarrow> char" where
  "toy_chr b = (if b = 0x61 then CHR ''a'' else CHR ''?'')"

definition toy_getdecoder :: "string \<Rightarrow> string option" where
  "toy_getdecoder enc = (if enc = ''ascii'' \<or> enc = ''gb2312'' then Some enc else None)"

definition toy_inc_decode :: "string \<Rightarrow> bytes \<Rightarrow> bool \<Rightarrow> (string + string) \<times> string" where
  "toy_inc_decode d data final =
     (if d = ''ascii'' then
        (if list_all (\<lambda>b. b < 0x80) data then (Inr (map toy_chr data), d)
         else (Inl ''ordinal not in range(128)'', d))
      else
        (if list_ex (\<lambda>b. b = 0xFF) data then (Inl ''illegal multibyte sequence'', d)
         else (Inr (map toy_chr data), d)))"

definition toy_bytes_decode :: "bytes \<Rightarrow> string \<Rightarrow> codec_error + string" where
  "toy_bytes_decode data enc =
     (case toy_getdecoder enc of
        None \<Rightarrow> Inl (UnknownEncoding enc)
      | Some d \<Rightarrow>
          (case toy_inc_decode d data True of
             (Inl msg, _) \<Rightarrow> Inl (UnicodeDecodeError msg)
           | (Inr text, _) \<Rightarrow> Inr text))"

definition toy_env :: "(toy_det, string) text_env" where
  "toy_env =
     \<lparr>new_detector = \<lparr>td_seen = [], td_closed = False\<rparr>,
      feed = (\<lambda>det data. det\<lparr>td_seen := td_seen det @ data\<rparr>),
      close = (\<lambda>det. det\<lparr>td_closed := True\<rparr>),
      result_encoding = toy_result,
      getincrementaldecoder = toy_getdecoder,
      inc_decode = toy_inc_decode,
      bytes_decode = toy_bytes_decode\<rparr>"

subsection \<open>Properties of TextDecoder\<close>

lemma text_decode_below:
  "decoder self = None \<Longrightarrow> buffer self = Some buf \<Longrightarrow> length (buf @ data) < 4096 \<Longrightarrow>
   text_decode E self data =
     (Inr [], self\<lparr>detector := feed E (detector self) data, buffer := Some (buf @ data)\<rparr>)"
  by (simp add: text_decode_def)

lemma text_decode_chunks_below:
  "decoder self = None \<Longrightarrow> buffer self = Some buf \<Longrightarrow>
   length (buf @ concat chunks) < 4096 \<Longrightarrow>
   text_decode_chunks E self chunks =
     (map (\<lambda>chunk. Inr []) chunks,
      self\<lparr>detector := fold (\<lambda>chunk det. feed E det chunk) chunks (detector self),
        buffer := Some (buf @ concat chunks)\<rparr>)"
proof (induction chunks arbitrary: self buf)
  case Nil
  then show ?case by simp
next
  case (Cons chunk chunks)
  let ?self' = "self\<lparr>detector := feed E (detector self) chunk, buffer := Some (buf @ chunk)\<rparr>"
  from Cons.prems have "length (buf @ chunk) < 4096" by simp
  with Cons.prems have step: "text_decode E self chunk = (Inr [], ?self')"
    by (simp add: text_decode_below)
  have "decoder ?self' = None" "buffer ?self' = Some (buf @ chunk)"
    using Cons.prems by simp_all
  moreover from Cons.prems have "length ((buf @ chunk) @ concat chunks) < 4096" by simp
  ultimately have "text_decode_chunks E ?self' chunks =
     (map (\<lambda>chunk. Inr []) chunks,
      ?self'\<lparr>detector := fold (\<lambda>chunk det. feed E det chunk) chunks (detector ?self'),
        buffer := Some ((buf @ chunk) @ concat chunks)\<rparr>)"
    by (rule Cons.IH)
  with step show ?case by simp
qed

lemma text_decode_commit:
  "decoder self = None \<Longrightarrow> buffer self = Some buf \<Longrightarrow> 4096 \<le> length (buf @ data) \<Longrightarrow>
   result_encoding E (close E (feed E (detector self) data)) = Some enc \<Longrightarrow> enc \<noteq> [] \<Longrightarrow>
   getincrementaldecoder E enc = Some d0 \<Longrightarrow>
   inc_decode E d0 (buf @ data) False = (Inr text, d1) \<Longrightarrow>
   text_decode E self data =
     (Inr text,
      self\<lparr>decoder := Some d1, detector := close E (feed E (detector self) data),
        buffer := None\<rparr>)"
  by (simp add: text_decode_def detector_result_def Let_def)

lemma text_decode_committed:
  "decoder self = Some d \<Longrightarrow>
   text_decode E self data =
     (case inc_decode E d data False of
        (Inr text, d') \<Rightarrow> (Inr text, self\<lparr>decoder := Some d'\<rparr>)
      | (Inl msg, d') \<Rightarrow> (Inl (ValueError msg), self\<lparr>decoder := Some d'\<rparr>))"
  by (simp add: text_decode_def)

lemma text_decode_chunks_direct:
  "decoder self = Some d \<Longrightarrow>
   text_decode_chunks E self chunks =
     (case inc_decode_chunks E d chunks of (rs, d') \<Rightarrow> (rs, self\<lparr>decoder := Some d'\<rparr>))"
proof (induction chunks arbitrary: self d)
  case Nil
  then show ?case by simp
next
  case (Cons chunk chunks)
  obtain r d' where i: "inc_decode E d chunk False = (r, d')"
    by (cases "inc_decode E d chunk False") auto
  have "decoder (self\<lparr>decoder := Some d'\<rparr>) = Some d'" by simp
  from Cons.IH [OF this] Cons.prems i show ?case
    by (cases r) (simp_all add: text_decode_committed split: prod.splits)
qed

lemma text_decode_failed_commit:
  "decoder self = None \<Longrightarrow> buffer self = Some buf \<Longrightarrow> 4096 \<le> length (buf @ data) \<Longrightarrow>
   result_encoding E (close E (feed E (detector self) data)) = Some enc \<Longrightarrow> enc \<noteq> [] \<Longrightarrow>
   getincrementaldecoder E enc = Some d0 \<Longrightarrow>
   inc_decode E d0 (buf @ data) False = (Inl msg, d1) \<Longrightarrow>
   text_decode E self data =
     (Inl (ValueError msg),
      self\<lparr>decoder := Some d1, detector := close E (feed E (detector self) data),
        buffer := Some (buf @ data)\<rparr>)"
  by (simp add: text_decode_def detector_result_def Let_def)

lemma list_all_replicate:
  "list_all P (replicate n x) = (n = 0 \<or> P x)"
  by (induction n) auto

text \<open>
  C7. A TextDecoder made with no declared encoding is given the chunks \<open>chunks\<close>,
  of fewer than 4096 bytes in all, then a chunk \<open>data\<close> with which the buffer
  reaches 4096 bytes or more, then the chunks \<open>later\<close>. Every call on \<open>chunks\<close>
  returns the empty string and the bytes pile up in the buffer (and are fed to the
  detector). The call on \<open>data\<close> closes the detector; when it names an encoding that
  \<open>codecs\<close> knows and the buffered bytes decode, the call returns the text of the
  whole buffer, decoded in one pass by the new incremental decoder, which is now the
  committed decoder, and the buffer is \<open>None\<close>. The calls on \<open>later\<close> are the calls
  of that committed decoder on the same chunks; the buffer stays \<open>None\<close>.
\<close>

theorem text_decoder_buffers_then_commits:
  assumes "length (concat chunks) < 4096"
    and "4096 \<le> length (concat chunks @ data)"
    and "result_encoding E
          (close E (fold (\<lambda>chunk det. feed E det chunk) (chunks @ [data]) (new_detector E))) =
        Some enc"
    and "enc \<noteq> []"
    and "getincrementaldecoder E enc = Some d0"
    and "inc_decode E d0 (concat chunks @ data) False = (Inr text, d1)"
    and "buffering =
        \<lparr>decoder = None,
         detector = fold (\<lambda>chunk det. feed E det chunk) chunks (new_detector E),
         buffer = Some (concat chunks)\<rparr>"
    and "committed =
        \<lparr>decoder = Some d1,
         detector =
           close E (fold (\<lambda>chunk det. feed E det chunk) (chunks @ [data]) (new_detector E)),
         buffer = None\<rparr>"
  shows "text_decode_chunks E (text_decoder_undeclared E) chunks =
      (map (\<lambda>chunk. Inr []) chunks, buffering)
    \<and> text_decode E buffering data = (Inr text, committed)
    \<and> text_decode_chunks E committed later =
      (case inc_decode_chunks E d1 later of
         (rs, d') \<Rightarrow> (rs, committed\<lparr>decoder := Some d'\<rparr>))"
proof -
  have "text_decode_chunks E (text_decoder_undeclared E) chunks =
      (map (\<lambda>chunk. Inr []) chunks, buffering)"
    using text_decode_chunks_below [of "text_decoder_undeclared E" "[]" chunks E] assms(1)
    by (simp add: text_decoder_undeclared_def assms(7))
  moreover have "text_decode E buffering data = (Inr text, committed)"
    using text_decode_commit [of buffering "concat chunks" data E enc d0 "text" d1] assms(2-6)
    by (simp add: assms(7,8))
  moreover have "text_decode_chunks E committed later =
      (case inc_decode_chunks E d1 later of
         (rs, d') \<Rightarrow> (rs, committed\<lparr>decoder := Some d'\<rparr>))"
    by (rule text_decode_chunks_direct) (simp add: assms(8))
  ultimately show ?thesis by simp
qed

text \<open>
  With the toy detector and codec: 4000 bytes and an empty chunk are buffered, 96 more
  bytes make 4096 and the 4096 characters come back at once; a later chunk is decoded
  directly.
\<close>

theorem text_decoder_buffers_then_commits_witness:
  "text_decode_chunks toy_env (text_decoder_undeclared toy_env) [replicate 4000 0x61, []] =
     ([Inr [], Inr []],
      \<lparr>decoder = None,
       detector = \<lparr>td_seen = replicate 4000 0x61, td_closed = False\<rparr>,
       buffer = Some (replicate 4000 0x61)\<rparr>)
   \<and> text_decode toy_env
       \<lparr>decoder = None,
        detector = \<lparr>td_seen = replicate 4000 0x61, td_closed = False\<rparr>,
        buffer = Some (replicate 4000 0x61)\<rparr>
       (replicate 96 0x61) =
     (Inr (replicate 4000 CHR ''a'' @ replicate 96 CHR ''a''),
      \<lparr>decoder = Some ''ascii'',
       detector = \<lparr>td_seen = replicate 4000 0x61 @ replicate 96 0x61, td_closed = True\<rparr>,
       buffer = None\<rparr>)
   \<and> text_decode_chunks toy_env
       \<lparr>decoder = Some ''ascii'',
        detector = \<lparr>td_seen = replicate 4000 0x61 @ replicate 96 0x61, td_closed = True\<rparr>,
        buffer = None\<rparr>
       [[0x61, 0x62]] =
     ([Inr ''a?''],
      \<lparr>decoder = Some ''ascii'',
       detector = \<lparr>td_seen = replicate 4000 0x61 @ replicate 96 0x61, td_closed = True\<rparr>,
       buffer = None\<rparr>)"
proof -
  have 1: "length (concat [replicate 4000 (0x61 :: byte), []]) < 4096" by simp
  have 2: "4096 \<le> length (concat [replicate 4000 (0x61 :: byte), []] @ replicate 96 0x61)"
    by simp
  have 3: "result_encoding toy_env
        (close toy_env
          (fold (\<lambda>chunk det. feed toy_env det chunk)
            ([replicate 4000 0x61, []] @ [replicate 96 0x61]) (new_detector toy_env))) =
      Some ''ascii''"
    by (simp add: toy_env_def toy_result_def list_all_replicate)
  have 4: "''ascii'' \<noteq> []" by simp
  have 5: "getincrementaldecoder toy_env ''ascii'' = Some ''ascii''"
    by (simp add: toy_env_def toy_getdecoder_def)
  have 6: "inc_decode toy_env ''ascii''
        (concat [replicate 4000 0x61, []] @ replicate 96 0x61) False =
      (Inr (replicate 4000 CHR ''a'' @ replicate 96 CHR ''a''), ''ascii'')"
    by (simp add: toy_env_def toy_inc_decode_def list_all_replicate toy_chr_def)
  from text_decoder_buffers_then_commits [OF 1 2 3 4 5 6 refl refl, of "[[0x61, 0x62]]"]
  show ?thesis
    by (simp add: toy_env_def toy_inc_decode_def toy_chr_def)
qed

lemma text_flush_guess:
  "decoder self = None \<Longrightarrow> buffer self = Some buf \<Longrightarrow> buf \<noteq> [] \<Longrightarrow>
   result_encoding E (close E (detector self)) = Some enc \<Longrightarrow> enc \<noteq> [] \<Longrightarrow>
   text_flush E self =
     ((case bytes_decode E buf enc of
         Inr text \<Rightarrow> Inr text
       | Inl (UnicodeDecodeError msg) \<Rightarrow> Inl (ValueError msg)
       | Inl (UnknownEncoding name) \<Rightarrow> Inl (LookupError name)),
      self\<lparr>detector := close E (detector self)\<rparr>)"
  by (simp add: text_flush_def detector_result_def split: sum.splits codec_error.splits)

text \<open>
  C8. \<open>flush\<close> of a TextDecoder made with no declared encoding. After chunks that
  held no byte at all the buffer is empty and \<open>flush\<close> returns the empty string, no
  exception, the decoder unchanged. After chunks of at least one and fewer than 4096
  bytes in all, \<open>flush\<close> closes the detector and, when it names an encoding, returns
  the whole buffer decoded in that encoding by \<open>bytes.decode\<close> (a
  \<open>UnicodeDecodeError\<close> of which is raised as \<open>ValueError\<close>). With a committed
  decoder, \<open>flush\<close> is one call of it on \<open>b""\<close> with \<open>final=True\<close>.
\<close>

theorem text_decoder_flush_cases:
  "(concat chunks = [] \<longrightarrow>
      text_flush E (snd (text_decode_chunks E (text_decoder_undeclared E) chunks)) =
        (Inr [], snd (text_decode_chunks E (text_decoder_undeclared E) chunks)))
   \<and> (concat chunks \<noteq> [] \<and> length (concat chunks) < 4096 \<and>
       result_encoding E
         (close E (fold (\<lambda>chunk det. feed E det chunk) chunks (new_detector E))) = Some enc \<and>
       enc \<noteq> [] \<longrightarrow>
      text_flush E (snd (text_decode_chunks E (text_decoder_undeclared E) chunks)) =
        ((case bytes_decode E (concat chunks) enc of
            Inr text \<Rightarrow> Inr text
          | Inl (UnicodeDecodeError msg) \<Rightarrow> Inl (ValueError msg)
          | Inl (UnknownEncoding name) \<Rightarrow> Inl (LookupError name)),
         \<lparr>decoder = None,
          detector = close E (fold (\<lambda>chunk det. feed E det chunk) chunks (new_detector E)),
          buffer = Some (concat chunks)\<rparr>))
   \<and> (decoder self = Some d \<longrightarrow>
      text_flush E self =
        (case inc_decode E d [] True of
           (Inr text, d') \<Rightarrow> (Inr text, self\<lparr>decoder := Some d'\<rparr>)
         | (Inl msg, d') \<Rightarrow> (Inl (ValueError msg), self\<lparr>decoder := Some d'\<rparr>)))"
proof -
  let ?fresh = "text_decoder_undeclared E"
  let ?after = "snd (text_decode_chunks E ?fresh chunks)"
  have after: "?after =
      \<lparr>decoder = None,
       detector = fold (\<lambda>chunk det. feed E det chunk) chunks (new_detector E),
       buffer = Some (concat chunks)\<rparr>"
    if "length (concat chunks) < 4096"
    using text_decode_chunks_below [of ?fresh "[]" chunks E] that
    by (simp add: text_decoder_undeclared_def)
  have "text_flush E ?after = (Inr [], ?after)" if "concat chunks = []"
    using after that by (simp add: text_flush_def)
  moreover have "text_flush E ?after =
        ((case bytes_decode E (concat chunks) enc of
            Inr text \<Rightarrow> Inr text
          | Inl (UnicodeDecodeError msg) \<Rightarrow> Inl (ValueError msg)
          | Inl (UnknownEncoding name) \<Rightarrow> Inl (LookupError name)),
         \<lparr>decoder = None,
          detector = close E (fold (\<lambda>chunk det. feed E det chunk) chunks (new_detector E)),
          buffer = Some (concat chunks)\<rparr>)"
    if "concat chunks \<noteq> []" "length (concat chunks) < 4096"
      "result_encoding E
         (close E (fold (\<lambda>chunk det. feed E det chunk) chunks (new_detector E))) = Some enc"
      "enc \<noteq> []"
    using text_flush_guess [where self = ?after and E = E and buf = "concat chunks" and enc = enc]
      that after [OF that(2)]
    by simp
  moreover have "text_flush E self =
        (case inc_decode E d [] True of
           (Inr text, d') \<Rightarrow> (Inr text, self\<lparr>decoder := Some d'\<rparr>)
         | (Inl msg, d') \<Rightarrow> (Inl (ValueError msg), self\<lparr>decoder := Some d'\<rparr>))"
    if "decoder self = Some d"
    using that by (simp add: text_flush_def)
  ultimately show ?thesis by blast
qed

text \<open>
  With the toy detector and codec: an empty body flushes to the empty string, two
  bytes flush to two characters in the detected encoding, and a committed decoder
  flushes through one final call.
\<close>

theorem text_decoder_flush_cases_witness:
  "text_flush toy_env (snd (text_decode_chunks toy_env (text_decoder_undeclared toy_env) [[]])) =
     (Inr [], snd (text_decode_chunks toy_env (text_decoder_undeclared toy_env) [[]]))
   \<and> text_flush toy_env
       (snd (text_decode_chunks toy_env (text_decoder_undeclared toy_env) [[0x61], [0x61]])) =
     (Inr ''aa'',
      \<lparr>decoder = None, detector = \<lparr>td_seen = [0x61, 0x61], td_closed = True\<rparr>,
       buffer = Some [0x61, 0x61]\<rparr>)
   \<and> text_flush toy_env
       \<lparr>decoder = Some ''ascii'', detector = \<lparr>td_seen = [], td_closed = False\<rparr>,
        buffer = None\<rparr> =
     (Inr [],
      \<lparr>decoder = Some ''ascii'', detector = \<lparr>td_seen = [], td_closed = False\<rparr>,
       buffer = None\<rparr>)"
proof -
  have a: "concat [[] :: bytes] = []" by simp
  have b: "concat [[0x61 :: byte], [0x61]] \<noteq> [] \<and> length (concat [[0x61 :: byte], [0x61]]) < 4096 \<and>
      result_encoding toy_env
        (close toy_env
          (fold (\<lambda>chunk det. feed toy_env det chunk) [[0x61], [0x61]] (new_detector toy_env))) =
        Some ''ascii'' \<and>
      ''ascii'' \<noteq> []"
    by (simp add: toy_env_def toy_result_def)
  have c: "decoder
        \<lparr>decoder = Some ''ascii'', detector = \<lparr>td_seen = [], td_closed = False\<rparr>,
         buffer = None :: bytes option\<rparr> = Some ''ascii''"
    by simp
  have 1: "text_flush toy_env
        (snd (text_decode_chunks toy_env (text_decoder_undeclared toy_env) [[]])) =
      (Inr [], snd (text_decode_chunks toy_env (text_decoder_undeclared toy_env) [[]]))"
    using a text_decoder_flush_cases [where chunks = "[[]]" and E = toy_env] by blast
  have 2: "text_flush toy_env
       (snd (text_decode_chunks toy_env (text_decoder_undeclared toy_env) [[0x61], [0x61]])) =
     ((case bytes_decode toy_env (concat [[0x61], [0x61]]) ''ascii'' of
            Inr text \<Rightarrow> Inr text
          | Inl (UnicodeDecodeError msg) \<Rightarrow> Inl (ValueError msg)
          | Inl (UnknownEncoding name) \<Rightarrow> Inl (LookupError name)),
      \<lparr>decoder = None,
       detector = close toy_env
          (fold (\<lambda>chunk det. feed toy_env det chunk) [[0x61], [0x61]] (new_detector toy_env)),
       buffer = Some (concat [[0x61], [0x61]])\<rparr>)"
    using b text_decoder_flush_cases
      [where chunks = "[[0x61], [0x61]]" and E = toy_env and enc = "''ascii''"]
    by blast
  have 3: "text_flush toy_env
       \<lparr>decoder = Some ''ascii'', detector = \<lparr>td_seen = [], td_closed = False\<rparr>,
        buffer = None\<rparr> =
     (case inc_decode toy_env ''ascii'' [] True of
        (Inr text, d') \<Rightarrow>
          (Inr text,
           \<lparr>decoder = Some ''ascii'', detector = \<lparr>td_seen = [], td_closed = False\<rparr>,
            buffer = None\<rparr>\<lparr>decoder := Some d'\<rparr>)
      | (Inl msg, d') \<Rightarrow>
          (Inl (ValueError msg),
           \<lparr>decoder = Some ''ascii'', detector = \<lparr>td_seen = [], td_closed = False\<rparr>,
            buffer = None\<rparr>\<lparr>decoder := Some d'\<rparr>))"
    using c text_decoder_flush_cases
      [where self = "\<lparr>decoder = Some ''ascii'',
          detector = \<lparr>td_seen = [], td_closed = False\<rparr>, buffer = None\<rparr>"
        and E = toy_env and d = "''ascii''"]
    by blast
  from 2 have r2: "text_flush toy_env
       (snd (text_decode_chunks toy_env (text_decoder_undeclared toy_env) [[0x61], [0x61]])) =
     (Inr ''aa'',
      \<lparr>decoder = None, detector = \<lparr>td_seen = [0x61, 0x61], td_closed = True\<rparr>,
       buffer = Some [0x61, 0x61]\<rparr>)"
    by (simp add: toy_env_def toy_bytes_decode_def toy_getdecoder_def toy_inc_decode_def
        toy_chr_def)
  from 3 have r3: "text_flush toy_env
       \<lparr>decoder = Some ''ascii'', detector = \<lparr>td_seen = [], td_closed = False\<rparr>,
        buffer = None\<rparr> =
     (Inr [],
      \<lparr>decoder = Some ''ascii'', detector = \<lparr>td_seen = [], td_closed = False\<rparr>,
       buffer = None\<rparr>)"
    by (simp add: toy_env_def toy_inc_decode_def)
  from 1 r2 r3 show ?thesis by blast
qed

subsection \<open>The two state components\<close>

text \<open>
  The constructor leaves exactly one of \<open>decoder\<close> and \<open>buffer\<close> set, \<open>flush\<close> keeps
  it so, and so does every \<open>decode\<close> call that returns.
\<close>

lemma exactly_one_non_null_init:
  "text_decoder_init E encoding = Inr self \<Longrightarrow> exactly_one_non_null self"
  by (auto simp: text_decoder_init_def exactly_one_non_null_def split: option.splits)

lemma exactly_one_non_null_flush:
  "exactly_one_non_null self \<Longrightarrow> exactly_one_non_null (snd (text_flush E self))"
  by (auto simp: text_flush_def exactly_one_non_null_def detector_result_def Let_def
      split: option.splits prod.splits sum.splits codec_error.splits if_splits)

lemma exactly_one_non_null_decode_returns:
  "exactly_one_non_null self \<Longrightarrow> text_decode E self data = (Inr text, self') \<Longrightarrow>
   exactly_one_non_null self'"
  by (auto simp: text_decode_def exactly_one_non_null_def detector_result_def Let_def
      split: option.splits prod.splits sum.splits if_splits)

lemma exactly_one_non_null_decode:
  "exactly_one_non_null self \<Longrightarrow>
   exactly_one_non_null (snd (text_decode E self data)) \<or>
   (decoder self = None \<and> decoder (snd (text_decode E self data)) \<noteq> None \<and>
    (\<exists>msg. fst (text_decode E self data) = Inl (ValueError msg)))"
  by (auto simp: text_decode_def exactly_one_non_null_def detector_result_def Let_def
      split: option.splits prod.splits sum.splits if_splits)

text \<open>
  A \<open>decode\<close> call that raises at the commit does not keep it so. In \<open>decode\<close>,
  \<open>self.decoder\<close> is assigned before the buffered bytes are decoded and
  \<open>self.buffer = None\<close> comes after; when the decoding raises \<open>UnicodeDecodeError\<close>
  the second assignment is skipped and the object is left with both set.
\<close>

lemma failed_commit_breaks_exactly_one:
  "decoder self = None \<Longrightarrow> buffer self = Some buf \<Longrightarrow> 4096 \<le> length (buf @ data) \<Longrightarrow>
   result_encoding E (close E (feed E (detector self) data)) = Some enc \<Longrightarrow> enc \<noteq> [] \<Longrightarrow>
   getincrementaldecoder E enc = Some d0 \<Longrightarrow>
   inc_decode E d0 (buf @ data) False = (Inl msg, d1) \<Longrightarrow>
   \<not> exactly_one_non_null (snd (text_decode E self data))"
  by (simp add: text_decode_failed_commit exactly_one_non_null_def)

text \<open>
  C9. The claim is that exactly one of \<open>decoder\<close> and \<open>buffer\<close> is not \<open>None\<close> after
  the constructor and after every \<open>decode\<close> or \<open>flush\<close> call. It fails after a
  \<open>decode\<close> call that raises at the commit: with the toy detector and codec, 4096
  bytes that are detected as \<open>gb2312\<close> and hold a byte that codec rejects leave the
  decoder with the \<open>gb2312\<close> decoder and the 4096 buffered bytes both set.
\<close>

theorem text_decoder_failed_commit_leaves_both:
  "exactly_one_non_null (text_decoder_undeclared toy_env)
   \<and> text_decode toy_env (text_decoder_undeclared toy_env) (replicate 4095 0x61 @ [0xFF]) =
     (Inl (ValueError ''illegal multibyte sequence''),
      \<lparr>decoder = Some ''gb2312'',
       detector = \<lparr>td_seen = replicate 4095 0x61 @ [0xFF], td_closed = True\<rparr>,
       buffer = Some (replicate 4095 0x61 @ [0xFF])\<rparr>)
   \<and> \<not> exactly_one_non_null
       (snd (text_decode toy_env (text_decoder_undeclared toy_env)
              (replicate 4095 0x61 @ [0xFF])))"
proof -
  have "text_decode toy_env (text_decoder_undeclared toy_env) (replicate 4095 0x61 @ [0xFF]) =
     (Inl (ValueError ''illegal multibyte sequence''),
      \<lparr>decoder = Some ''gb2312'',
       detector = \<lparr>td_seen = replicate 4095 0x61 @ [0xFF], td_closed = True\<rparr>,
       buffer = Some (replicate 4095 0x61 @ [0xFF])\<rparr>)"
    by (simp add: text_decode_def text_decoder_undeclared_def detector_result_def toy_env_def
        toy_result_def toy_getdecoder_def toy_inc_decode_def list_all_replicate)
  then show ?thesis
    by (simp add: exactly_one_non_null_def text_decoder_undeclared_def)
qed

section \<open>The redirect engine\<close>

text \<open>
  The client module that follows redirects is not among the sources; only its tests
  (\<open>tests/client/test_redirects.py\<close>) are. Every definition of this section is
  modelled from section 4.5 of the specification, and the theorems of this section
  are about that model. URL parsing and the transport are external: the resolution of
  a \<open>Location\<close> value against a URL and the transport's \<open>send\<close> are parameters. The
  cookie jar (step 6) is left out: no cookie is merged into a follow-up request.
\<close>

text \<open>Modelled from the spec: the target URL of a Request (section 3), the client's
  URL type being absent from the sources.\<close>

record url =
  scheme :: string
  host :: string
  port :: "nat option"
  path :: string
  query :: string
  fragment :: string

text \<open>Modelled from the spec: the body representation of a Request (section 3):
  empty, a fixed byte buffer, or a one-shot byte-producing sequence; the client's
  request type is absent from the sources.\<close>

datatype body = EmptyBody | FixedBody bytes | OneShotBody

text \<open>Modelled from the spec: a Request (section 3): method, target URL, headers in
  insertion order, body; the client's request type is absent from the sources.\<close>

record request =
  req_method :: string
  target :: url
  headers :: "(string \<times> string) list"
  content :: body

text \<open>Modelled from the spec: a Response (section 3), with the status code and the
  headers, which are all the engine's decisions read; the client's response type is
  absent from the sources. The history is kept by the engine beside the response.\<close>

record response =
  status_code :: nat
  response_headers :: "(string \<times> string) list"

text \<open>Modelled from the spec: the error kinds of the redirect engine (section 7);
  the client's exception classes are absent from the sources.\<close>

datatype redirect_error =
  InvalidRedirectLocation
  | UnsupportedProtocol string
  | RequestBodyUnavailable
  | TooManyRedirects

text \<open>Modelled from the spec: the policy of section 4.5 (redirect-following enabled
  or disabled, maximum redirect count); the client's configuration is absent from the
  sources.\<close>

record policy =
  follow_redirects :: bool
  max_redirects :: nat

text \<open>Modelled from the spec: header names are case-insensitive (section 3); the
  client's header mapping is absent from the sources. \<open>lower\<close> folds the ASCII
  capitals.\<close>

definition lower_char :: "char \<Rightarrow> char" where
  "lower_char c =
     (case map_of (zip ''ABCDEFGHIJKLMNOPQRSTUVWXYZ'' ''abcdefghijklmnopqrstuvwxyz'') c of
        None \<Rightarrow> c
      | Some d \<Rightarrow> d)"

text \<open>Modelled from the spec: case folding of a header name (section 3), the header
  mapping being absent from the sources.\<close>

definition lower :: "string \<Rightarrow> string" where
  "lower s = map lower_char s"

text \<open>Modelled from the spec: the values of a header, looked up without regard to
  case (section 3), the header mapping being absent from the sources.\<close>

definition header_values :: "string \<Rightarrow> (string \<times> string) list \<Rightarrow> string list" where
  "header_values name hs = map snd (filter (\<lambda>(k, v). lower k = lower name) hs)"

text \<open>Modelled from the spec: removal of a header, without regard to case (section 3
  and step 5 of section 4.5), the header mapping being absent from the sources.\<close>

definition remove_header :: "string \<Rightarrow> (string \<times> string) list \<Rightarrow> (string \<times> string) list" where
  "remove_header name hs = filter (\<lambda>(k, v). lower k \<noteq> lower name) hs"

text \<open>Modelled from the spec: step 1 of section 4.5, the classification, absent from
  the sources: a response is a redirect candidate iff its status code is one of 301,
  302, 303, 307, 308 and a \<open>Location\<close> header is present.\<close>

definition is_redirect :: "response \<Rightarrow> bool" where
  "is_redirect resp =
     (status_code resp \<in> {301, 302, 303, 307, 308} \<and>
      header_values ''Location'' (response_headers resp) \<noteq> [])"

text \<open>Modelled from the spec: the origin of a URL, scheme and host and port (step 5
  of section 4.5 and the glossary), the client's origin test being absent from the
  sources.\<close>

definition origin :: "url \<Rightarrow> string \<times> string \<times> nat option" where
  "origin u = (scheme u, host u, port u)"

text \<open>Modelled from the spec: step 2 of section 4.5, absent from the sources: the
  \<open>Location\<close> value is resolved against the URL of the current request by the
  external \<open>resolve\<close>, which gives \<open>None\<close> for a value that is no URL; if the new
  location has no fragment, the fragment of the original request is kept.\<close>

definition redirect_url ::
  "(url \<Rightarrow> string \<Rightarrow> url option) \<Rightarrow> request \<Rightarrow> response \<Rightarrow> redirect_error + url" where
  "redirect_url resolve req resp =
     (case header_values ''Location'' (response_headers resp) of
        [] \<Rightarrow> Inl InvalidRedirectLocation
      | location # _ \<Rightarrow>
          (case resolve (target req) location of
             None \<Rightarrow> Inl InvalidRedirectLocation
           | Some u \<Rightarrow>
               Inr (if fragment u = [] then u\<lparr>fragment := fragment (target req)\<rparr> else u)))"

text \<open>Modelled from the spec: step 3 of section 4.5, absent from the sources: only
  the schemes \<open>http\<close> and \<open>https\<close> may be followed.\<close>

definition scheme_allowed :: "url \<Rightarrow> bool" where
  "scheme_allowed u = (scheme u = ''http'' \<or> scheme u = ''https'')"

text \<open>Modelled from the spec: the Method column of the table in step 4 of section
  4.5, absent from the sources: on 301 and 302, GET if the original was POST and
  unchanged otherwise; on 303, forced to GET except that HEAD stays HEAD; on 307 and
  308, unchanged.\<close>

definition redirect_method :: "nat \<Rightarrow> string \<Rightarrow> string" where
  "redirect_method status m =
     (if status = 301 \<or> status = 302 then (if m = ''POST'' then ''GET'' else m)
      else if status = 303 then (if m = ''HEAD'' then ''HEAD'' else ''GET'')
      else m)"

text \<open>Modelled from the spec: the Body column of the table in step 4 of section 4.5,
  absent from the sources: on 301 and 302 the body is dropped if the method changed
  to GET; on 303 it is always dropped; on 307 and 308 it is preserved.\<close>

definition body_dropped :: "nat \<Rightarrow> string \<Rightarrow> bool" where
  "body_dropped status m =
     (if status = 301 \<or> status = 302 then
        (redirect_method status m \<noteq> m \<and> redirect_method status m = ''GET'')
      else status = 303)"

text \<open>Modelled from the spec: the sentence after the table in step 4 of section 4.5,
  absent from the sources: a body that must be preserved but is a one-shot stream
  aborts with \<open>RequestBodyUnavailable\<close>.\<close>

definition redirect_body :: "nat \<Rightarrow> string \<Rightarrow> body \<Rightarrow> redirect_error + body" where
  "redirect_body status m b =
     (if body_dropped status m then Inr EmptyBody
      else if b = OneShotBody then Inl RequestBodyUnavailable
      else Inr b)"

text \<open>Modelled from the spec: step 5 of section 4.5, absent from the sources: when
  the body is dropped the body-describing headers are removed; when the origin of the
  target differs from the origin of the original request, \<open>Authorization\<close> and
  \<open>Cookie\<close> are removed.\<close>

definition redirect_headers :: "request \<Rightarrow> url \<Rightarrow> bool \<Rightarrow> (string \<times> string) list" where
  "redirect_headers req u dropped =
     (let hs1 =
            (if dropped then
               remove_header ''Transfer-Encoding''
                 (remove_header ''Content-Type''
                   (remove_header ''Content-Length'' (headers req)))
             else headers req);
          hs2 =
            (if origin u \<noteq> origin (target req) then
               remove_header ''Cookie'' (remove_header ''Authorization'' hs1)
             else hs1)
      in hs2)"

text \<open>Modelled from the spec: steps 2 to 5 of section 4.5 in their order, absent from
  the sources: the follow-up request for a redirect response, or the error that
  aborts the chain.\<close>

definition build_redirect_request ::
  "(url \<Rightarrow> string \<Rightarrow> url option) \<Rightarrow> request \<Rightarrow> response \<Rightarrow> redirect_error + request" where
  "build_redirect_request resolve req resp =
     (case redirect_url resolve req resp of
        Inl e \<Rightarrow> Inl e
      | Inr u \<Rightarrow>
          if \<not> scheme_allowed u then Inl (UnsupportedProtocol (scheme u))
          else
            (case redirect_body (status_code resp) (req_method req) (content req) of
               Inl e \<Rightarrow> Inl e
             | Inr b \<Rightarrow>
                 Inr \<lparr>req_method = redirect_method (status_code resp) (req_method req),
                      target = u,
                      headers =
                        redirect_headers req u (body_dropped (status_code resp) (req_method req)),
                      content = b\<rparr>))"

text \<open>Modelled from the spec: steps 1, 7 and 8 of section 4.5, absent from the
  sources: the loop over the exchanges. A response that is no redirect, or any
  response when redirect-following is disabled, ends the chain and is returned with
  the history. Each successful classification-and-rewrite increments the counter;
  exceeding the maximum aborts with \<open>TooManyRedirects\<close>. No URL is compared with an
  earlier one.\<close>

function follow ::
  "(request \<Rightarrow> response) \<Rightarrow> (url \<Rightarrow> string \<Rightarrow> url option) \<Rightarrow> policy \<Rightarrow>
   request \<Rightarrow> response list \<Rightarrow> nat \<Rightarrow> redirect_error + response \<times> response list" where
  "follow send resolve pol req history counter =
     (let resp = send req in
      if \<not> follow_redirects pol \<or> \<not> is_redirect resp then Inr (resp, history)
      else
        (case build_redirect_request resolve req resp of
           Inl e \<Rightarrow> Inl e
         | Inr req' \<Rightarrow>
             if max_redirects pol < counter + 1 then Inl TooManyRedirects
             else follow send resolve pol req' (history @ [resp]) (counter + 1)))"
  by pat_completeness auto
termination
  by (relation "measure (\<lambda>(send, resolve, pol, req, history, counter).
        max_redirects pol - counter)") auto

declare follow.simps [simp del]

text \<open>Modelled from the spec: the initial state of section 4.5 (no history, counter
  0) and the scheme check of step 3 on the original request, absent from the
  sources.\<close>

definition send_request ::
  "(request \<Rightarrow> response) \<Rightarrow> (url \<Rightarrow> string \<Rightarrow> url option) \<Rightarrow> policy \<Rightarrow>
   request \<Rightarrow> redirect_error + response \<times> response list" where
  "send_request send resolve pol req =
     (if \<not> scheme_allowed (target req) then Inl (UnsupportedProtocol (scheme (target req)))
      else follow send resolve pol req [] 0)"

subsection \<open>Chains of redirects\<close>

text \<open>
  \<open>redirects_for send resolve req k\<close>: starting with \<open>req\<close>, each of the first \<open>k\<close>
  exchanges gives a redirect response whose rewrite succeeds. \<open>request_after\<close> is
  the request reached after \<open>k\<close> such steps and \<open>responses_before\<close> the \<open>k\<close>
  responses on the way.
\<close>

fun redirects_for ::
  "(request \<Rightarrow> response) \<Rightarrow> (url \<Rightarrow> string \<Rightarrow> url option) \<Rightarrow> request \<Rightarrow> nat \<Rightarrow> bool" where
  "redirects_for send resolve req 0 = True"
| "redirects_for send resolve req (Suc k) =
     (is_redirect (send req) \<and>
      (case build_redirect_request resolve req (send req) of
         Inl e \<Rightarrow> False
       | Inr req' \<Rightarrow> redirects_for send resolve req' k))"

fun request_after ::
  "(request \<Rightarrow> response) \<Rightarrow> (url \<Rightarrow> string \<Rightarrow> url option) \<Rightarrow> request \<Rightarrow> nat \<Rightarrow> request" where
  "request_after send resolve req 0 = req"
| "request_after send resolve req (Suc k) =
     (case build_redirect_request resolve req (send req) of
        Inl e \<Rightarrow> req
      | Inr req' \<Rightarrow> request_after send resolve req' k)"

fun responses_before ::
  "(request \<Rightarrow> response) \<Rightarrow> (url \<Rightarrow> string \<Rightarrow> url option) \<Rightarrow> request \<Rightarrow> nat \<Rightarrow>
   response list" where
  "responses_before send resolve req 0 = []"
| "responses_before send resolve req (Suc k) =
     (case build_redirect_request resolve req (send req) of
        Inl e \<Rightarrow> []
      | Inr req' \<Rightarrow> send req # responses_before send resolve req' k)"

subsection \<open>A toy transport for concrete instances\<close>

text \<open>
  The handler of the tests in small: \<open>/cross_domain\<close> answers 303 to
  \<open>https://example.org/cross_domain_target\<close>, \<open>/redirect_loop\<close> answers 303 to
  itself, \<open>/once\<close> answers 303 to itself for a POST and 200 otherwise; every other
  path answers 200. The toy resolution knows the \<open>Location\<close> values in use.
\<close>

definition toy_send :: "request \<Rightarrow> response" where
  "toy_send req =
     (if path (target req) = ''/cross_domain'' then
        \<lparr>status_code = 303,
         response_headers = [(''location'', ''https://example.org/cross_domain_target'')]\<rparr>
      else if path (target req) = ''/redirect_loop'' then
        \<lparr>status_code = 303, response_headers = [(''location'', ''/redirect_loop'')]\<rparr>
      else if path (target req) = ''/once'' \<and> req_method req = ''POST'' then
        \<lparr>status_code = 303, response_headers = [(''location'', ''/once'')]\<rparr>
      else \<lparr>status_code = 200, response_headers = []\<rparr>)"

definition toy_resolve :: "url \<Rightarrow> string \<Rightarrow> url option" where
  "toy_resolve base location =
     (if location = ''https://example.org/cross_domain_target'' then
        Some \<lparr>scheme = ''https'', host = ''example.org'', port = None,
              path = ''/cross_domain_target'', query = [], fragment = []\<rparr>
      else if location = ''/target'' \<or> location = ''/redirect_loop'' \<or> location = ''/once'' then
        Some (base\<lparr>path := location, query := [], fragment := []\<rparr>)
      else None)"

definition toy_url :: "string \<Rightarrow> string \<Rightarrow> url" where
  "toy_url h p =
     \<lparr>scheme = ''https'', host = h, port = None, path = p, query = [], fragment = []\<rparr>"

subsection \<open>Properties of the redirect engine\<close>

lemma lower_names [simp]:
  "lower ''Authorization'' = ''authorization''"
  "lower ''Cookie'' = ''cookie''"
  "lower ''Content-Length'' = ''content-length''"
  "lower ''Content-Type'' = ''content-type''"
  "lower ''Transfer-Encoding'' = ''transfer-encoding''"
  "lower ''Location'' = ''location''"
  "lower ''location'' = ''location''"
  by (simp_all add: lower_def lower_char_def)

lemma filter_remove_header:
  "n \<noteq> lower b \<Longrightarrow>
   filter (\<lambda>(k, v). lower k = n) (remove_header b hs) = filter (\<lambda>(k, v). lower k = n) hs"
  by (induction hs) (auto simp: remove_header_def)

lemma filter_remove_header_same:
  "n = lower b \<Longrightarrow> filter (\<lambda>(k, v). lower k = n) (remove_header b hs) = []"
  by (induction hs) (auto simp: remove_header_def)

lemma authorization_after_redirect_headers:
  "filter (\<lambda>(k, v). lower k = lower ''Authorization'') (redirect_headers req u dropped) =
     (if origin u \<noteq> origin (target req) then []
      else filter (\<lambda>(k, v). lower k = lower ''Authorization'') (headers req))"
  by (simp add: redirect_headers_def Let_def filter_remove_header filter_remove_header_same)

text \<open>
  C1. In the model of the specification: when a redirect is rewritten into a
  follow-up request, the target of that request is the resolved \<open>Location\<close>; if its
  origin (scheme, host, port) differs from the origin of the original request, the
  follow-up request has no \<open>Authorization\<close> header, whatever the original request
  had; if the origin is the same, the \<open>Authorization\<close> headers of the follow-up
  request are those of the original request, names and values, in the same order.
\<close>

theorem redirect_authorization_by_origin:
  assumes "build_redirect_request resolve req resp = Inr req'"
  shows "redirect_url resolve req resp = Inr (target req')
    \<and> (origin (target req') \<noteq> origin (target req) \<longrightarrow>
         header_values ''Authorization'' (headers req') = [])
    \<and> (origin (target req') = origin (target req) \<longrightarrow>
         filter (\<lambda>(k, v). lower k = lower ''Authorization'') (headers req') =
         filter (\<lambda>(k, v). lower k = lower ''Authorization'') (headers req))"
proof -
  from assms obtain u b where u: "redirect_url resolve req resp = Inr u"
    and r: "req' =
      \<lparr>req_method = redirect_method (status_code resp) (req_method req), target = u,
       headers = redirect_headers req u (body_dropped (status_code resp) (req_method req)),
       content = b\<rparr>"
    by (auto simp: build_redirect_request_def split: sum.splits if_splits)
  have a: "filter (\<lambda>(k, v). lower k = lower ''Authorization'') (headers req') =
      (if origin u \<noteq> origin (target req) then []
       else filter (\<lambda>(k, v). lower k = lower ''Authorization'') (headers req))"
    unfolding r by (simp only: request.simps authorization_after_redirect_headers)
  from a have "header_values ''Authorization'' (headers req') = []"
    if "origin (target req') \<noteq> origin (target req)"
    using that r by (simp add: header_values_def)
  moreover from a have "filter (\<lambda>(k, v). lower k = lower ''Authorization'') (headers req') =
      filter (\<lambda>(k, v). lower k = lower ''Authorization'') (headers req)"
    if "origin (target req') = origin (target req)"
    using that r by simp
  moreover from u r have "redirect_url resolve req resp = Inr (target req')" by simp
  ultimately show ?thesis by blast
qed

text \<open>
  The two cases of the tests: from \<open>example.com\<close> to \<open>example.org\<close> the header
  \<open>Authorization: abc\<close> is gone, from \<open>example.org\<close> to \<open>example.org\<close> it is kept.
\<close>

theorem redirect_authorization_by_origin_witness:
  "header_values ''Authorization''
     (headers (projr (build_redirect_request toy_resolve
        \<lparr>req_method = ''GET'', target = toy_url ''example.com'' ''/cross_domain'',
         headers = [(''Authorization'', ''abc'')], content = EmptyBody\<rparr>
        (toy_send
          \<lparr>req_method = ''GET'', target = toy_url ''example.com'' ''/cross_domain'',
           headers = [(''Authorization'', ''abc'')], content = EmptyBody\<rparr>)))) = []
   \<and> header_values ''Authorization''
     (headers (projr (build_redirect_request toy_resolve
        \<lparr>req_method = ''GET'', target = toy_url ''example.org'' ''/cross_domain'',
         headers = [(''Authorization'', ''abc'')], content = EmptyBody\<rparr>
        (toy_send
          \<lparr>req_method = ''GET'', target = toy_url ''example.org'' ''/cross_domain'',
           headers = [(''Authorization'', ''abc'')], content = EmptyBody\<rparr>)))) = [''abc'']"
proof -
  let ?com = "\<lparr>req_method = ''GET'', target = toy_url ''example.com'' ''/cross_domain'',
         headers = [(''Authorization'', ''abc'')], content = EmptyBody\<rparr>"
  let ?org = "\<lparr>req_method = ''GET'', target = toy_url ''example.org'' ''/cross_domain'',
         headers = [(''Authorization'', ''abc'')], content = EmptyBody\<rparr>"
  let ?to = "\<lparr>scheme = ''https'', host = ''example.org'', port = None,
              path = ''/cross_domain_target'', query = [], fragment = []\<rparr>"
  have com: "build_redirect_request toy_resolve ?com (toy_send ?com) =
      Inr \<lparr>req_method = ''GET'', target = ?to, headers = [], content = EmptyBody\<rparr>"
    by (simp add: build_redirect_request_def redirect_url_def toy_send_def toy_resolve_def
        toy_url_def header_values_def scheme_allowed_def redirect_body_def body_dropped_def
        redirect_method_def redirect_headers_def remove_header_def origin_def)
  have org: "build_redirect_request toy_resolve ?org (toy_send ?org) =
      Inr \<lparr>req_method = ''GET'', target = ?to, headers = [(''Authorization'', ''abc'')],
           content = EmptyBody\<rparr>"
    by (simp add: build_redirect_request_def redirect_url_def toy_send_def toy_resolve_def
        toy_url_def header_values_def scheme_allowed_def redirect_body_def body_dropped_def
        redirect_method_def redirect_headers_def remove_header_def origin_def)
  from redirect_authorization_by_origin [OF com]
  have "header_values ''Authorization''
      (headers \<lparr>req_method = ''GET'', target = ?to, headers = [], content = EmptyBody\<rparr>) = []"
    by (simp add: origin_def toy_url_def)
  moreover from redirect_authorization_by_origin [OF org]
  have "header_values ''Authorization''
      (headers \<lparr>req_method = ''GET'', target = ?to, headers = [(''Authorization'', ''abc'')],
           content = EmptyBody\<rparr>) = [''abc'']"
    by (simp add: origin_def toy_url_def header_values_def)
  ultimately show ?thesis
    by (simp only: com org sum.sel)
qed

text \<open>
  C2. In the model of the specification, the rewrite of method and body goes by the
  status code. On 301 and 302 a POST becomes GET and its body is dropped; any other
  method, HEAD among them, is unchanged, and its body is not dropped. On 303 every
  method except HEAD becomes GET, HEAD stays HEAD, and the body is dropped in both
  cases. On 307 and 308 the method is unchanged and the body is preserved: a body
  that can be sent again is the body of the follow-up request, a one-shot body is
  refused with \<open>RequestBodyUnavailable\<close>. The follow-up request that
  \<open>build_redirect_request\<close> returns has the method and the body so rewritten.
\<close>

theorem redirect_method_body_table:
  "(status = 301 \<or> status = 302 \<longrightarrow>
      redirect_method status ''POST'' = ''GET'' \<and>
      redirect_body status ''POST'' b = Inr EmptyBody \<and>
      (m \<noteq> ''POST'' \<longrightarrow>
         redirect_method status m = m \<and>
         redirect_body status m b =
           (if b = OneShotBody then Inl RequestBodyUnavailable else Inr b)))
   \<and> (m \<noteq> ''HEAD'' \<longrightarrow> redirect_method 303 m = ''GET'')
   \<and> redirect_method 303 ''HEAD'' = ''HEAD''
   \<and> redirect_body 303 m b = Inr EmptyBody
   \<and> (status = 307 \<or> status = 308 \<longrightarrow>
        redirect_method status m = m \<and>
        redirect_body status m b =
          (if b = OneShotBody then Inl RequestBodyUnavailable else Inr b))
   \<and> (build_redirect_request resolve req resp = Inr req' \<longrightarrow>
        req_method req' = redirect_method (status_code resp) (req_method req) \<and>
        redirect_body (status_code resp) (req_method req) (content req) = Inr (content req'))"
proof -
  have "req_method req' = redirect_method (status_code resp) (req_method req) \<and>
      redirect_body (status_code resp) (req_method req) (content req) = Inr (content req')"
    if "build_redirect_request resolve req resp = Inr req'"
    using that by (auto simp: build_redirect_request_def split: sum.splits if_splits)
  then show ?thesis
    by (auto simp: redirect_method_def redirect_body_def body_dropped_def)
qed

text \<open>
  The three cases the specification lists, on the toy transport: a POST to a 301
  gives a GET with no body (and no \<open>Content-Length\<close>), a POST to a 307 gives a POST
  with the body intact, a GET to a 303 gives a GET.
\<close>

theorem redirect_method_body_table_witness:
  "build_redirect_request toy_resolve
     \<lparr>req_method = ''POST'', target = toy_url ''example.org'' ''/redirect_301'',
      headers = [(''Content-Length'', ''2'')], content = FixedBody [0x68, 0x69]\<rparr>
     \<lparr>status_code = 301, response_headers = [(''location'', ''/target'')]\<rparr> =
     Inr \<lparr>req_method = ''GET'', target = toy_url ''example.org'' ''/target'',
          headers = [], content = EmptyBody\<rparr>
   \<and> build_redirect_request toy_resolve
     \<lparr>req_method = ''POST'', target = toy_url ''example.org'' ''/redirect_body'',
      headers = [(''Content-Length'', ''2'')], content = FixedBody [0x68, 0x69]\<rparr>
     \<lparr>status_code = 307, response_headers = [(''location'', ''/target'')]\<rparr> =
     Inr \<lparr>req_method = ''POST'', target = toy_url ''example.org'' ''/target'',
          headers = [(''Content-Length'', ''2'')], content = FixedBody [0x68, 0x69]\<rparr>
   \<and> build_redirect_request toy_resolve
     \<lparr>req_method = ''GET'', target = toy_url ''example.com'' ''/cross_domain'',
      headers = [], content = EmptyBody\<rparr>
     \<lparr>status_code = 303,
      response_headers = [(''location'', ''https://example.org/cross_domain_target'')]\<rparr> =
     Inr \<lparr>req_method = ''GET'', target = toy_url ''example.org'' ''/cross_domain_target'',
          headers = [], content = EmptyBody\<rparr>"
proof -
  note t = redirect_method_body_table
  have a: "redirect_method 301 ''POST'' = ''GET''"
    and b: "redirect_body 301 ''POST'' (FixedBody [0x68, 0x69]) = Inr EmptyBody"
    using t [where status = 301 and b = "FixedBody [0x68, 0x69]"] by simp_all
  have c: "redirect_method 307 ''POST'' = ''POST''"
    and d: "redirect_body 307 ''POST'' (FixedBody [0x68, 0x69]) = Inr (FixedBody [0x68, 0x69])"
    using t [where status = 307 and m = "''POST''" and b = "FixedBody [0x68, 0x69]"]
    by simp_all
  have e: "redirect_method 303 ''GET'' = ''GET''"
    and f: "redirect_body 303 ''GET'' EmptyBody = Inr EmptyBody"
    using t [where m = "''GET''" and b = EmptyBody] by simp_all
  show ?thesis
    by (simp add: a b c d e f build_redirect_request_def redirect_url_def toy_resolve_def
        toy_url_def header_values_def scheme_allowed_def body_dropped_def
        redirect_headers_def remove_header_def origin_def)
qed

lemma follow_step:
  "follow_redirects pol \<Longrightarrow> is_redirect (send req) \<Longrightarrow>
   build_redirect_request resolve req (send req) = Inr req' \<Longrightarrow>
   follow send resolve pol req history counter =
     (if max_redirects pol < counter + 1 then Inl TooManyRedirects
      else follow send resolve pol req' (history @ [send req]) (counter + 1))"
  by (simp add: follow.simps [of send resolve pol req history counter])

lemma follow_stop:
  "\<not> is_redirect (send req) \<Longrightarrow>
   follow send resolve pol req history counter = Inr (send req, history)"
  by (simp add: follow.simps [of send resolve pol req history counter])

lemma follow_succeeds:
  "follow_redirects pol \<Longrightarrow> redirects_for send resolve req k \<Longrightarrow>
   counter + k \<le> max_redirects pol \<Longrightarrow>
   \<not> is_redirect (send (request_after send resolve req k)) \<Longrightarrow>
   follow send resolve pol req history counter =
     Inr (send (request_after send resolve req k),
          history @ responses_before send resolve req k)"
proof (induction k arbitrary: req history counter)
  case 0
  then show ?case by (simp add: follow_stop)
next
  case (Suc k)
  from Suc.prems(2) obtain req' where red: "is_redirect (send req)"
    and b: "build_redirect_request resolve req (send req) = Inr req'"
    and rest: "redirects_for send resolve req' k"
    by (auto split: sum.splits)
  from Suc.prems(3) have le: "(counter + 1) + k \<le> max_redirects pol" by simp
  from Suc.prems(4) b have stop: "\<not> is_redirect (send (request_after send resolve req' k))"
    by simp
  from Suc.prems(3) have "\<not> max_redirects pol < counter + 1" by simp
  with follow_step [where send = send and req = req, OF Suc.prems(1) red b]
  have "follow send resolve pol req history counter =
      follow send resolve pol req' (history @ [send req]) (counter + 1)"
    by simp
  also have "\<dots> = Inr (send (request_after send resolve req' k),
      (history @ [send req]) @ responses_before send resolve req' k)"
    by (rule Suc.IH [OF Suc.prems(1) rest le stop])
  finally show ?case using b by simp
qed

lemma follow_too_many:
  "follow_redirects pol \<Longrightarrow> max_redirects pol - counter = n \<Longrightarrow>
   counter \<le> max_redirects pol \<Longrightarrow> redirects_for send resolve req (Suc n) \<Longrightarrow>
   follow send resolve pol req history counter = Inl TooManyRedirects"
proof (induction n arbitrary: req history counter)
  case 0
  from "0.prems"(4) obtain req' where red: "is_redirect (send req)"
    and b: "build_redirect_request resolve req (send req) = Inr req'"
    by (auto split: sum.splits)
  from "0.prems"(2,3) have "max_redirects pol < counter + 1" by simp
  with follow_step [where send = send and req = req, OF "0.prems"(1) red b]
  show ?case by simp
next
  case (Suc n)
  from Suc.prems(4) obtain req' where red: "is_redirect (send req)"
    and b: "build_redirect_request resolve req (send req) = Inr req'"
    and rest: "redirects_for send resolve req' (Suc n)"
    by (auto split: sum.splits)
  from Suc.prems(2) have "\<not> max_redirects pol < counter + 1"
    and m: "max_redirects pol - (counter + 1) = n"
    and le: "counter + 1 \<le> max_redirects pol"
    by simp_all
  with follow_step [where send = send and req = req, OF Suc.prems(1) red b]
  have "follow send resolve pol req history counter =
      follow send resolve pol req' (history @ [send req]) (counter + 1)"
    by simp
  also have "\<dots> = Inl TooManyRedirects"
    by (rule Suc.IH [OF Suc.prems(1) m le rest])
  finally show ?case .
qed

lemma redirects_for_fewer:
  "redirects_for send resolve req k \<Longrightarrow> j \<le> k \<Longrightarrow> redirects_for send resolve req j"
proof (induction j arbitrary: req k)
  case 0
  then show ?case by simp
next
  case (Suc j)
  then obtain k' where k: "k = Suc k'" and "j \<le> k'" by (cases k) auto
  with Suc.prems(1) Suc.IH [of _ k'] show ?case
    by (auto split: sum.splits)
qed

lemma length_responses_before:
  "redirects_for send resolve req k \<Longrightarrow> length (responses_before send resolve req k) = k"
  by (induction k arbitrary: req) (auto split: sum.splits)

text \<open>
  C3. In the model of the specification, with redirect-following enabled and an
  original request of an allowed scheme: each classification-and-rewrite that
  succeeds adds one to the counter and the response to the history. A chain of \<open>k\<close>
  redirects with \<open>k\<close> at most the maximum, the maximum itself included, that ends in
  a response that is no redirect returns that response with the \<open>k\<close> redirect
  responses as its history. A chain of more redirects than the maximum aborts with
  \<open>TooManyRedirects\<close>. Nothing in either case depends on whether a URL comes back:
  the hypotheses speak of the number of redirects only.
\<close>

theorem redirect_ceiling:
  assumes "follow_redirects pol" and "scheme_allowed (target req)"
  shows "(is_redirect (send r) \<and> build_redirect_request resolve r (send r) = Inr r' \<and>
        counter + 1 \<le> max_redirects pol \<longrightarrow>
          follow send resolve pol r history counter =
          follow send resolve pol r' (history @ [send r]) (counter + 1))
    \<and> (redirects_for send resolve req k \<and> k \<le> max_redirects pol \<and>
        \<not> is_redirect (send (request_after send resolve req k)) \<longrightarrow>
          send_request send resolve pol req =
            Inr (send (request_after send resolve req k),
                 responses_before send resolve req k) \<and>
          length (responses_before send resolve req k) = k)
    \<and> (redirects_for send resolve req k \<and> max_redirects pol < k \<longrightarrow>
          send_request send resolve pol req = Inl TooManyRedirects)"
proof -
  have "follow send resolve pol r history counter =
      follow send resolve pol r' (history @ [send r]) (counter + 1)"
    if "is_redirect (send r)" "build_redirect_request resolve r (send r) = Inr r'"
      "counter + 1 \<le> max_redirects pol"
    using follow_step [where send = send and req = r, OF assms(1) that(1,2), of history counter]
      that(3)
    by simp
  moreover have "send_request send resolve pol req =
        Inr (send (request_after send resolve req k), responses_before send resolve req k) \<and>
      length (responses_before send resolve req k) = k"
    if "redirects_for send resolve req k" "k \<le> max_redirects pol"
      "\<not> is_redirect (send (request_after send resolve req k))"
    using follow_succeeds [where send = send and req = req and history = "[]" and counter = 0,
        OF assms(1) that(1)] that(2,3) assms(2)
      length_responses_before [OF that(1)]
    by (simp add: send_request_def)
  moreover have "send_request send resolve pol req = Inl TooManyRedirects"
    if "redirects_for send resolve req k" "max_redirects pol < k"
  proof -
    from that have "redirects_for send resolve req (Suc (max_redirects pol))"
      by (intro redirects_for_fewer [OF that(1)]) simp
    with follow_too_many [where send = send and req = req and history = "[]" and counter = 0,
        OF assms(1) refl] assms(2)
    show ?thesis by (simp add: send_request_def)
  qed
  ultimately show ?thesis by blast
qed

text \<open>
  On the toy transport with a maximum of one redirect: a POST to \<open>/once\<close> is
  redirected once, to the same URL, and succeeds with one response in its history; a
  request to \<open>/redirect_loop\<close> aborts.
\<close>

theorem redirect_ceiling_witness:
  "send_request toy_send toy_resolve \<lparr>follow_redirects = True, max_redirects = 1\<rparr>
     \<lparr>req_method = ''POST'', target = toy_url ''example.org'' ''/once'', headers = [],
      content = EmptyBody\<rparr> =
     Inr (\<lparr>status_code = 200, response_headers = []\<rparr>,
          [\<lparr>status_code = 303, response_headers = [(''location'', ''/once'')]\<rparr>])
   \<and> send_request toy_send toy_resolve \<lparr>follow_redirects = True, max_redirects = 1\<rparr>
     \<lparr>req_method = ''GET'', target = toy_url ''example.org'' ''/redirect_loop'', headers = [],
      content = EmptyBody\<rparr> =
     Inl TooManyRedirects"
proof -
  let ?pol = "\<lparr>follow_redirects = True, max_redirects = 1\<rparr>"
  let ?post = "\<lparr>req_method = ''POST'', target = toy_url ''example.org'' ''/once'', headers = [],
      content = EmptyBody\<rparr>"
  let ?get = "\<lparr>req_method = ''GET'', target = toy_url ''example.org'' ''/once'', headers = [],
      content = EmptyBody\<rparr>"
  let ?loop = "\<lparr>req_method = ''GET'', target = toy_url ''example.org'' ''/redirect_loop'',
      headers = [], content = EmptyBody\<rparr>"
  have pol: "follow_redirects ?pol" by simp
  have s1: "scheme_allowed (target ?post)" and s2: "scheme_allowed (target ?loop)"
    by (simp_all add: scheme_allowed_def toy_url_def)
  have b1: "build_redirect_request toy_resolve ?post (toy_send ?post) = Inr ?get"
    by (simp add: build_redirect_request_def redirect_url_def toy_send_def toy_resolve_def
        toy_url_def header_values_def scheme_allowed_def redirect_body_def body_dropped_def
        redirect_method_def redirect_headers_def remove_header_def origin_def)
  have b2: "build_redirect_request toy_resolve ?loop (toy_send ?loop) = Inr ?loop"
    by (simp add: build_redirect_request_def redirect_url_def toy_send_def toy_resolve_def
        toy_url_def header_values_def scheme_allowed_def redirect_body_def body_dropped_def
        redirect_method_def redirect_headers_def remove_header_def origin_def)
  have r1: "is_redirect (toy_send ?post)" and r2: "is_redirect (toy_send ?loop)"
    and r3: "\<not> is_redirect (toy_send ?get)"
    by (simp_all add: is_redirect_def toy_send_def toy_url_def header_values_def)
  have once: "redirects_for toy_send toy_resolve ?post 1 \<and> 1 \<le> max_redirects ?pol \<and>
      \<not> is_redirect (toy_send (request_after toy_send toy_resolve ?post 1))"
    using r1 r3 by (simp add: b1)
  have loop: "redirects_for toy_send toy_resolve ?loop 2 \<and> max_redirects ?pol < 2"
    using r2 by (simp add: b2 numeral_2_eq_2)
  from once redirect_ceiling [OF pol s1, where send = toy_send and resolve = toy_resolve and k = 1]
  have "send_request toy_send toy_resolve ?pol ?post =
      Inr (toy_send (request_after toy_send toy_resolve ?post 1),
           responses_before toy_send toy_resolve ?post 1)"
    by blast
  then have 1: "send_request toy_send toy_resolve ?pol ?post =
      Inr (\<lparr>status_code = 200, response_headers = []\<rparr>,
           [\<lparr>status_code = 303, response_headers = [(''location'', ''/once'')]\<rparr>])"
    by (simp add: b1) (simp add: toy_send_def toy_url_def)
  from loop redirect_ceiling [OF pol s2, where send = toy_send and resolve = toy_resolve and k = 2]
  have 2: "send_request toy_send toy_resolve ?pol ?loop = Inl TooManyRedirects"
    by blast
  from 1 2 show ?thesis by blast
qed

end
